theory Spec2Isabelle
  imports Main "HOL-Library.Word"
begin

unbundle bit_operations_syntax

section \<open>Data model of the driver (oci8.go)\<close>

text \<open>
  Go errors are values. \<open>Error\<close> carries the message of \<open>errors.New\<close> and
  \<open>fmt.Errorf\<close>; \<open>RuntimePanic\<close> is a Go run-time panic (an index out of range);
  \<open>NativeDiagnostic h rv\<close> is what \<open>conn.getError(rv)\<close> yields for a connection
  whose error handle is \<open>h\<close>.
\<close>

type_synonym handle = nat

type_synonym sword = int

datatype error =
    Error string
  | RuntimePanic string
  | NativeDiagnostic handle sword

fun error_text :: "error \<Rightarrow> string" where
  "error_text (Error m) = m"
| "error_text (RuntimePanic m) = m"
| "error_text (NativeDiagnostic h rv) = ''native diagnostic''"

text \<open>\<open>*time.Location\<close>: \<open>time.Local\<close>, \<open>time.UTC\<close>, or a zone loaded by name.\<close>

datatype location = Local | UTC | Zone string

text \<open>The escaping modes that \<open>unescape\<close> is called with.\<close>

datatype encoding = encodeHost | encodeUserPassword | encodeQueryComponent

text \<open>
  Constants of the native header (oci.h) that the source names through cgo:
  connection modes, transaction modes and call statuses.
\<close>

definition OCI_DEFAULT :: "32 word" where "OCI_DEFAULT = 0x0"
definition OCI_THREADED :: "32 word" where "OCI_THREADED = 0x1"
definition OCI_SYSDBA :: "32 word" where "OCI_SYSDBA = 0x2"
definition OCI_SYSOPER :: "32 word" where "OCI_SYSOPER = 0x4"
definition OCI_SYSASM :: "32 word" where "OCI_SYSASM = 0x8000"

definition OCI_TRANS_READONLY :: "32 word" where "OCI_TRANS_READONLY = 0x100"
definition OCI_TRANS_READWRITE :: "32 word" where "OCI_TRANS_READWRITE = 0x200"
definition OCI_TRANS_SERIALIZABLE :: "32 word" where "OCI_TRANS_SERIALIZABLE = 0x400"

definition OCI_SUCCESS :: sword where "OCI_SUCCESS = 0"
definition OCI_SUCCESS_WITH_INFO :: sword where "OCI_SUCCESS_WITH_INFO = 1"

text \<open>
  The struct \<open>DSN\<close>, with the fields \<open>ParseDSN\<close> assigns. \<open>Location\<close> is a
  pointer (\<open>None\<close> is nil). \<open>DSN_zero\<close> is Go's zero value \<open>DSN{}\<close>.
\<close>

record DSN =
  Connect :: string
  Username :: string
  Password :: string
  prefetchRows :: "32 word"
  prefetchMemory :: "32 word"
  Location :: "location option"
  transactionMode :: "32 word"
  enableQMPlaceholders :: bool
  operationMode :: "32 word"
  externalauthentication :: bool

definition DSN_zero :: DSN where
  "DSN_zero = \<lparr> Connect = [], Username = [], Password = [],
      prefetchRows = 0, prefetchMemory = 0, Location = None, transactionMode = 0,
      enableQMPlaceholders = False, operationMode = 0, externalauthentication = False \<rparr>"

section \<open>Helpers that ParseDSN calls\<close>

text \<open>
  \<open>ParseDSN\<close> calls \<open>splitRight\<close>, \<open>parseAuthority\<close>, \<open>unescape\<close> and
  \<open>ParseQuery\<close> of this package, whose bodies are in another file, and
  \<open>time.LoadLocation\<close>, which reads the time-zone database of the machine. They are
  parameters of the model: every theorem about \<open>ParseDSN\<close> below holds for whatever
  these functions return. \<open>ParseQuery\<close> returns a Go map and an error; the map is
  given as the list of its entries in the order in which \<open>range\<close> visits them (Go leaves
  that order open, so a theorem for every list covers every order).
\<close>

record helpers =
  splitRight :: "string \<Rightarrow> string \<Rightarrow> string \<times> string"
  parseAuthority :: "string \<Rightarrow> error + (string \<times> string)"
  unescape :: "string \<Rightarrow> encoding \<Rightarrow> error + string"
  ParseQuery :: "string \<Rightarrow> (string \<times> string list) list \<times> error option"
  LoadLocation :: "string \<Rightarrow> error + location"

section \<open>strconv.ParseUint(s, 10, bitSize)\<close>

text \<open>
  Base 10 accepts a non-empty string of the digits 0 to 9 only (no sign, no underscore);
  a value that does not fit \<open>bitSize\<close> bits is a range error.
\<close>

definition is_digit :: "char \<Rightarrow> bool" where
  "is_digit c = (48 \<le> (of_char c :: nat) \<and> (of_char c :: nat) \<le> 57)"

fun digits_value :: "nat \<Rightarrow> string \<Rightarrow> nat" where
  "digits_value acc [] = acc"
| "digits_value acc (c # cs) = digits_value (acc * 10 + (of_char c - 48)) cs"

definition ParseUint10 :: "string \<Rightarrow> nat \<Rightarrow> error + nat" where
  "ParseUint10 s bitSize =
     (if s = [] then Inl (Error ''invalid syntax'')
      else if \<not> list_all is_digit s then Inl (Error ''invalid syntax'')
      else if digits_value 0 s \<ge> 2 ^ bitSize then Inl (Error ''value out of range'')
      else Inr (digits_value 0 s))"

section \<open>ParseDSN\<close>

text \<open>
  The body of the loop \<open>for k, v := range qp\<close> (lines 66 to 119): the switch on the
  key. \<open>v[0]\<close> on an empty slice panics; only the \<open>loc\<close> case checks \<open>len(v) > 0\<close>.
\<close>

definition index_panic :: error where
  "index_panic = RuntimePanic ''index out of range''"

definition applyParam :: "helpers \<Rightarrow> DSN \<Rightarrow> string \<Rightarrow> string list \<Rightarrow> error + DSN" where
  "applyParam H dsn k v =
    (if k = ''loc'' then
       (if length v > 0 then
          (case LoadLocation H (v ! 0) of
             Inl err \<Rightarrow> Inl (Error (''Invalid loc: '' @ v ! 0 @ '': '' @ error_text err))
           | Inr l \<Rightarrow> Inr (dsn\<lparr>Location := Some l\<rparr>))
        else Inr dsn)
     else if k = ''isolation'' then
       (case v of [] \<Rightarrow> Inl index_panic
        | v0 # _ \<Rightarrow>
          if v0 = ''READONLY'' then Inr (dsn\<lparr>transactionMode := OCI_TRANS_READONLY\<rparr>)
          else if v0 = ''SERIALIZABLE'' then Inr (dsn\<lparr>transactionMode := OCI_TRANS_SERIALIZABLE\<rparr>)
          else if v0 = ''DEFAULT'' then Inr (dsn\<lparr>transactionMode := OCI_TRANS_READWRITE\<rparr>)
          else Inl (Error (''Invalid isolation: '' @ v0)))
     else if k = ''questionph'' then
       (case v of [] \<Rightarrow> Inl index_panic
        | v0 # _ \<Rightarrow>
          if v0 = ''YES'' \<or> v0 = ''TRUE'' then Inr (dsn\<lparr>enableQMPlaceholders := True\<rparr>)
          else if v0 = ''NO'' \<or> v0 = ''FALSE'' then Inr (dsn\<lparr>enableQMPlaceholders := False\<rparr>)
          else Inl (Error (''Invalid questionpm: '' @ v0)))
     else if k = ''prefetch_rows'' then
       (case v of [] \<Rightarrow> Inl index_panic
        | v0 # _ \<Rightarrow>
          (case ParseUint10 v0 32 of
             Inl err \<Rightarrow> Inl (Error (''invalid prefetch_rows: '' @ v0))
           | Inr z \<Rightarrow> Inr (dsn\<lparr>prefetchRows := of_nat z\<rparr>)))
     else if k = ''prefetch_memory'' then
       (case v of [] \<Rightarrow> Inl index_panic
        | v0 # _ \<Rightarrow>
          (case ParseUint10 v0 32 of
             Inl err \<Rightarrow> Inl (Error (''invalid prefetch_memory: '' @ v0))
           | Inr z \<Rightarrow> Inr (dsn\<lparr>prefetchMemory := of_nat z\<rparr>)))
     else if k = ''as'' then
       (case v of [] \<Rightarrow> Inl index_panic
        | v0 # _ \<Rightarrow>
          if v0 = ''SYSDBA'' \<or> v0 = ''sysdba'' then Inr (dsn\<lparr>operationMode := OCI_SYSDBA\<rparr>)
          else if v0 = ''SYSASM'' \<or> v0 = ''sysasm'' then Inr (dsn\<lparr>operationMode := OCI_SYSASM\<rparr>)
          else if v0 = ''SYSOPER'' \<or> v0 = ''sysoper'' then Inr (dsn\<lparr>operationMode := OCI_SYSOPER\<rparr>)
          else Inl (Error (''Invalid as: '' @ v0)))
     else Inr dsn)"

text \<open>The loop itself: the first entry whose case returns ends the function.\<close>

fun rangeParams :: "helpers \<Rightarrow> DSN \<Rightarrow> (string \<times> string list) list \<Rightarrow> error + DSN" where
  "rangeParams H dsn [] = Inr dsn"
| "rangeParams H dsn ((k, v) # qp) =
     (case applyParam H dsn k v of
        Inl err \<Rightarrow> Inl err
      | Inr dsn' \<Rightarrow> rangeParams H dsn' qp)"

definition prefix :: string where
  "prefix = ''oracle://''"

definition HasPrefix :: "string \<Rightarrow> string \<Rightarrow> bool" where
  "HasPrefix s p = (take (length p) s = p)"

text \<open>
  \<open>ParseDSN\<close> (lines 30 to 125). The result is the pair the Go function returns:
  \<open>Inl err\<close> is \<open>(nil, err)\<close> and \<open>Inr dsn\<close> is \<open>(dsn, nil)\<close>. The error that
  \<open>ParseQuery\<close> returns is bound at line 65 and never read afterwards.
\<close>

definition ParseDSN :: "helpers \<Rightarrow> string \<Rightarrow> error + DSN" where
  "ParseDSN H dsnString0 =
    (let dsn = DSN_zero\<lparr>Location := Some Local\<rparr> in
     if dsnString0 = [] then Inl (Error ''empty dsn'')
     else
       let dsnString1 = (if HasPrefix dsnString0 prefix
                         then drop (length prefix) dsnString0 else dsnString0);
           (authority, dsnString) = splitRight H dsnString1 ''@''
       in
       case (if authority \<noteq> [] then
               (case parseAuthority H authority of
                  Inl err \<Rightarrow> Inl err
                | Inr (u, p) \<Rightarrow> Inr (dsn\<lparr>Username := u, Password := p\<rparr>))
             else Inr dsn) of
         Inl err \<Rightarrow> Inl err
       | Inr dsn \<Rightarrow>
          (let (host, params) = splitRight H dsnString ''?'' in
           case unescape H host encodeHost of
             Inl err \<Rightarrow> Inl err
           | Inr host \<Rightarrow>
              (let dsn = dsn\<lparr>Connect := host\<rparr>;
                   dsn = dsn\<lparr>prefetchRows := 10\<rparr>;
                   dsn = dsn\<lparr>prefetchMemory := 0\<rparr>;
                   dsn = dsn\<lparr>operationMode := OCI_DEFAULT\<rparr>;
                   (qp, err) = ParseQuery H params
               in
               case rangeParams H dsn qp of
                 Inl err \<Rightarrow> Inl err
               | Inr dsn \<Rightarrow>
                   Inr (if length (Username dsn) + length (Password dsn)
                            + length (Connect dsn) = 0
                        then dsn\<lparr>externalauthentication := True\<rparr>
                        else dsn))))"

text \<open>
  The query string that \<open>ParseDSN\<close> hands to \<open>ParseQuery\<close> for an input (lines 40
  to 52), and the mapping the loop at line 66 ranges over.
\<close>

definition dsn_params :: "helpers \<Rightarrow> string \<Rightarrow> string" where
  "dsn_params H dsnString0 =
     (let dsnString1 = (if HasPrefix dsnString0 prefix
                        then drop (length prefix) dsnString0 else dsnString0);
          (authority, dsnString) = splitRight H dsnString1 ''@'';
          (host, params) = splitRight H dsnString ''?''
      in params)"

definition dsn_query :: "helpers \<Rightarrow> string \<Rightarrow> (string \<times> string list) list" where
  "dsn_query H dsnString = fst (ParseQuery H (dsn_params H dsnString))"

text \<open>
  The configuration as it stands at line 63, when every step before the query has
  passed (lines 32 to 63), or the error with which an earlier step returned.
\<close>

definition dsn_before_query :: "helpers \<Rightarrow> string \<Rightarrow> error + DSN" where
  "dsn_before_query H dsnString0 =
    (let dsn = DSN_zero\<lparr>Location := Some Local\<rparr> in
     if dsnString0 = [] then Inl (Error ''empty dsn'')
     else
       let dsnString1 = (if HasPrefix dsnString0 prefix
                         then drop (length prefix) dsnString0 else dsnString0);
           (authority, dsnString) = splitRight H dsnString1 ''@''
       in
       case (if authority \<noteq> [] then
               (case parseAuthority H authority of
                  Inl err \<Rightarrow> Inl err
                | Inr (u, p) \<Rightarrow> Inr (dsn\<lparr>Username := u, Password := p\<rparr>))
             else Inr dsn) of
         Inl err \<Rightarrow> Inl err
       | Inr dsn \<Rightarrow>
          (let (host, params) = splitRight H dsnString ''?'' in
           case unescape H host encodeHost of
             Inl err \<Rightarrow> Inl err
           | Inr host \<Rightarrow>
              (let dsn = dsn\<lparr>Connect := host\<rparr>;
                   dsn = dsn\<lparr>prefetchRows := 10\<rparr>;
                   dsn = dsn\<lparr>prefetchMemory := 0\<rparr>;
                   dsn = dsn\<lparr>operationMode := OCI_DEFAULT\<rparr>
               in Inr dsn)))"

section \<open>A concrete instance of the helpers\<close>

text \<open>
  Modelled from the spec: \<open>splitRight\<close>, \<open>parseAuthority\<close>, \<open>unescape\<close> and
  \<open>ParseQuery\<close> are not in oci8.go; the definitions below follow sections 4.1 and 6
  of the specification (split at the last separator; user and password percent-decoded;
  the query as \<open>&\<close>-separated \<open>key=value\<close> pairs, percent-decoded, collected per
  key). They are used only to run \<open>ParseDSN\<close> on concrete strings. The specification
  leaves open what \<open>splitRight\<close> returns when the separator is absent; here it is the
  whole string and an empty second part.
\<close>

definition LastIndex :: "string \<Rightarrow> string \<Rightarrow> nat option" where
  "LastIndex s c =
     List.find (\<lambda>i. take (length c) (drop i s) = c) (rev [0..<Suc (length s - length c)])"

definition std_splitRight :: "string \<Rightarrow> string \<Rightarrow> string \<times> string" where
  "std_splitRight s c =
     (case LastIndex s c of
        None \<Rightarrow> (s, [])
      | Some i \<Rightarrow> (take i s, drop (i + length c) s))"

definition unhex :: "char \<Rightarrow> nat option" where
  "unhex c =
     (let n = (of_char c :: nat) in
      if 48 \<le> n \<and> n \<le> 57 then Some (n - 48)
      else if 97 \<le> n \<and> n \<le> 102 then Some (n - 87)
      else if 65 \<le> n \<and> n \<le> 70 then Some (n - 55)
      else None)"

fun std_unescape :: "string \<Rightarrow> encoding \<Rightarrow> error + string" where
  "std_unescape [] mode = Inr []"
| "std_unescape (c # cs) mode =
     (if c = CHR ''%'' then
        (case cs of
           h1 # h2 # rest \<Rightarrow>
             (case unhex h1 of
                None \<Rightarrow> Inl (Error ''invalid URL escape'')
              | Some a \<Rightarrow>
                 (case unhex h2 of
                    None \<Rightarrow> Inl (Error ''invalid URL escape'')
                  | Some b \<Rightarrow>
                     (case std_unescape rest mode of
                        Inl err \<Rightarrow> Inl err
                      | Inr r \<Rightarrow> Inr (char_of (a * 16 + b) # r))))
         | _ \<Rightarrow> Inl (Error ''invalid URL escape''))
      else
        (case std_unescape cs mode of
           Inl err \<Rightarrow> Inl err
         | Inr r \<Rightarrow>
             Inr ((if c = CHR ''+'' \<and> mode = encodeQueryComponent then CHR '' '' else c) # r)))"

definition std_parseAuthority :: "string \<Rightarrow> error + (string \<times> string)" where
  "std_parseAuthority authority =
     (let (user, pass) = std_splitRight authority ''/'' in
      case std_unescape user encodeUserPassword of
        Inl err \<Rightarrow> Inl err
      | Inr u \<Rightarrow>
         (case std_unescape pass encodeUserPassword of
            Inl err \<Rightarrow> Inl err
          | Inr p \<Rightarrow> Inr (u, p)))"

fun split_on :: "char \<Rightarrow> string \<Rightarrow> string list" where
  "split_on sep [] = [Nil]"
| "split_on sep (c # cs) =
     (if c = sep then [] # split_on sep cs
      else (case split_on sep cs of
              [] \<Rightarrow> [c] # Nil
            | p # ps \<Rightarrow> (c # p) # ps))"

fun add_value :: "(string \<times> string list) list \<Rightarrow> string \<Rightarrow> string \<Rightarrow> (string \<times> string list) list" where
  "add_value [] k v = [(k, [v])]"
| "add_value ((k', vs) # m) k v =
     (if k' = k then (k', vs @ [v]) # m else (k', vs) # add_value m k v)"

fun query_pairs :: "string list \<Rightarrow> (string \<times> string list) list \<times> error option
                     \<Rightarrow> (string \<times> string list) list \<times> error option" where
  "query_pairs [] acc = acc"
| "query_pairs (kv # kvs) (m, err) =
     (if kv = [] then query_pairs kvs (m, err)
      else
        let key = takeWhile (\<lambda>c. c \<noteq> CHR ''='') kv;
            val = drop 1 (dropWhile (\<lambda>c. c \<noteq> CHR ''='') kv)
        in
        case std_unescape key encodeQueryComponent of
          Inl err1 \<Rightarrow> query_pairs kvs (m, if err = None then Some err1 else err)
        | Inr k \<Rightarrow>
           (case std_unescape val encodeQueryComponent of
              Inl err1 \<Rightarrow> query_pairs kvs (m, if err = None then Some err1 else err)
            | Inr v \<Rightarrow> query_pairs kvs (add_value m k v, err)))"

definition std_ParseQuery :: "string \<Rightarrow> (string \<times> string list) list \<times> error option" where
  "std_ParseQuery query = query_pairs (split_on CHR ''&'' query) ([], None)"

text \<open>
  \<open>time.LoadLocation\<close>: the empty name and \<open>UTC\<close> give UTC, \<open>Local\<close> gives
  \<open>time.Local\<close>, any other name is looked up in the time-zone database \<open>tzdb\<close>.
\<close>

definition std_LoadLocation :: "string list \<Rightarrow> string \<Rightarrow> error + location" where
  "std_LoadLocation tzdb name =
     (if name = [] \<or> name = ''UTC'' then Inr UTC
      else if name = ''Local'' then Inr Local
      else if name \<in> set tzdb then Inr (Zone name)
      else Inl (Error (''unknown time zone '' @ name)))"

definition std_helpers :: "string list \<Rightarrow> helpers" where
  "std_helpers tzdb =
     \<lparr> splitRight = std_splitRight,
       parseAuthority = std_parseAuthority,
       unescape = std_unescape,
       ParseQuery = std_ParseQuery,
       LoadLocation = std_LoadLocation tzdb \<rparr>"

section \<open>placeholders\<close>

text \<open>
  \<open>strconv.Itoa\<close> on a non-negative number: its decimal digits. The counter of
  \<open>placeholders\<close> counts matches in one string, so it stays far below the range of
  Go's \<open>int\<close> and is a natural number here.
\<close>

fun Itoa :: "nat \<Rightarrow> string" where
  "Itoa n = (if n < 10 then [char_of (48 + n)]
             else Itoa (n div 10) @ [char_of (48 + n mod 10)])"

declare Itoa.simps [simp del]

text \<open>
  Modelled from the spec: the compiled pattern \<open>phre\<close> is declared in another file.
  The comment above \<open>placeholders\<close> (line 397) and sections 4.4 and 8 of the
  specification give the marker it matches: the one character \<open>?\<close>.
\<close>

definition phre :: char where
  "phre = CHR ''?''"

text \<open>
  \<open>Regexp.ReplaceAllStringFunc\<close> for a pattern that matches one character: the text
  is scanned left to right, every match is replaced by what \<open>repl\<close> returns for it, and
  the state of the closure \<open>repl\<close> (here the counter \<open>n\<close>) is threaded through the
  calls in that order.
\<close>

fun ReplaceAllStringFunc ::
  "char \<Rightarrow> string \<Rightarrow> (string \<Rightarrow> 's \<Rightarrow> string \<times> 's) \<Rightarrow> 's \<Rightarrow> string \<times> 's" where
  "ReplaceAllStringFunc re [] repl st = ([], st)"
| "ReplaceAllStringFunc re (c # cs) repl st =
     (if c = re then
        (let (r, st1) = repl [c] st;
             (out, st2) = ReplaceAllStringFunc re cs repl st1
         in (r @ out, st2))
      else
        (let (out, st2) = ReplaceAllStringFunc re cs repl st
         in (c # out, st2)))"

definition placeholders :: "string \<Rightarrow> string" where
  "placeholders sql =
     (let n = 0 in
      fst (ReplaceAllStringFunc phre sql
             (\<lambda>m n. (let n = n + 1 in ('':'' @ Itoa n, n))) n))"

text \<open>
  The rewriting in the words of the specification (section 4.4): the statement is cut at
  every marker into segments, and the segments are joined again with the markers
  \<open>:k\<close>, \<open>:k+1\<close>, ... between them, in order.
\<close>

fun marker_segments :: "string \<Rightarrow> string list" where
  "marker_segments [] = [Nil]"
| "marker_segments (c # cs) =
     (if c = CHR ''?'' then [] # marker_segments cs
      else (case marker_segments cs of
              [] \<Rightarrow> [c] # Nil
            | seg # segs \<Rightarrow> (c # seg) # segs))"

fun number_markers :: "nat \<Rightarrow> string list \<Rightarrow> string" where
  "number_markers k [] = []"
| "number_markers k [seg] = seg"
| "number_markers k (seg # segs) = seg @ '':'' @ Itoa k @ number_markers (Suc k) segs"

section \<open>The native layer\<close>

text \<open>
  Modelled from the spec: the cgo wrappers of oci8.go.h and the native library are not
  in oci8.go. Following sections 4.2, 6 and 8 of the specification they are a fake
  native layer that tracks allocations and releases: a trace of events and a supply of
  fresh handles. The status of every native call is a parameter \<open>N\<close>, a function of
  the trace so far and of the call with its arguments, so a theorem for every \<open>N\<close>
  covers a failure injected at any step. A handle is handed out exactly when the
  allocating call reports success: \<open>OCI_SUCCESS\<close> for \<open>OCIHandleAlloc\<close> (which has
  no other success status), \<open>OCI_SUCCESS\<close> or \<open>OCI_SUCCESS_WITH_INFO\<close> for
  \<open>OCIEnvCreate\<close> and \<open>OCILogon\<close>.
\<close>

datatype htype =
  OCI_HTYPE_ENV | OCI_HTYPE_ERROR | OCI_HTYPE_SVCCTX | OCI_HTYPE_SERVER | OCI_HTYPE_SESSION

datatype attr = OCI_ATTR_SERVER | OCI_ATTR_USERNAME | OCI_ATTR_PASSWORD | OCI_ATTR_SESSION

datatype cred = OCI_CRED_RDBMS | OCI_CRED_EXT

datatype attrvalue = HandlePtr handle | Text string

datatype call =
    EnvCreate "32 word" nat
  | HandleAlloc handle htype nat
  | ServerAttach handle handle "string option" "32 word" "32 word"
  | AttrSet handle htype attrvalue "32 word" attr handle
  | SessionBegin handle handle handle cred "32 word"
  | Logon handle handle string "32 word" string "32 word" string "32 word"
  | TransCommit handle handle "32 word"
  | TransRollback handle handle "32 word"

datatype event =
    Called call sword
  | Acquired htype handle
  | Released htype handle

type_synonym native = "event list \<Rightarrow> call \<Rightarrow> sword"

record world =
  trace :: "event list"
  fresh :: handle

definition log_events :: "event list \<Rightarrow> world \<Rightarrow> world" where
  "log_events evs w = w\<lparr>trace := trace w @ evs\<rparr>"

definition WrapOCIEnvCreate :: "native \<Rightarrow> 32 word \<Rightarrow> nat \<Rightarrow> world \<Rightarrow> (sword \<times> handle) \<times> world" where
  "WrapOCIEnvCreate N mode extra w =
     (let rv = N (trace w) (EnvCreate mode extra) in
      if rv = OCI_SUCCESS \<or> rv = OCI_SUCCESS_WITH_INFO
      then ((rv, fresh w),
            (log_events [Called (EnvCreate mode extra) rv, Acquired OCI_HTYPE_ENV (fresh w)] w)
              \<lparr>fresh := Suc (fresh w)\<rparr>)
      else ((rv, 0), log_events [Called (EnvCreate mode extra) rv] w))"

definition WrapOCIHandleAlloc :: "native \<Rightarrow> handle \<Rightarrow> htype \<Rightarrow> nat \<Rightarrow> world \<Rightarrow> (sword \<times> handle) \<times> world" where
  "WrapOCIHandleAlloc N parent t extra w =
     (let rv = N (trace w) (HandleAlloc parent t extra) in
      if rv = OCI_SUCCESS
      then ((rv, fresh w),
            (log_events [Called (HandleAlloc parent t extra) rv, Acquired t (fresh w)] w)
              \<lparr>fresh := Suc (fresh w)\<rparr>)
      else ((rv, 0), log_events [Called (HandleAlloc parent t extra) rv] w))"

text \<open>The source ignores the status of every \<open>OCIHandleFree\<close>.\<close>

definition OCIHandleFree :: "handle \<Rightarrow> htype \<Rightarrow> world \<Rightarrow> world" where
  "OCIHandleFree h t w = log_events [Released t h] w"

definition WrapOCIServerAttach ::
  "native \<Rightarrow> handle \<Rightarrow> handle \<Rightarrow> string option \<Rightarrow> 32 word \<Rightarrow> 32 word \<Rightarrow> world \<Rightarrow> sword \<times> world" where
  "WrapOCIServerAttach N srvhp errhp dblink len mode w =
     (let c = ServerAttach srvhp errhp dblink len mode; rv = N (trace w) c
      in (rv, log_events [Called c rv] w))"

definition OCIAttrSet ::
  "native \<Rightarrow> handle \<Rightarrow> htype \<Rightarrow> attrvalue \<Rightarrow> 32 word \<Rightarrow> attr \<Rightarrow> handle \<Rightarrow> world \<Rightarrow> sword \<times> world" where
  "OCIAttrSet N trgthndlp trghndltyp attributep sz attrtype errhp w =
     (let c = AttrSet trgthndlp trghndltyp attributep sz attrtype errhp; rv = N (trace w) c
      in (rv, log_events [Called c rv] w))"

definition WrapOCISessionBegin ::
  "native \<Rightarrow> handle \<Rightarrow> handle \<Rightarrow> handle \<Rightarrow> cred \<Rightarrow> 32 word \<Rightarrow> world \<Rightarrow> sword \<times> world" where
  "WrapOCISessionBegin N svchp errhp usrhp credt mode w =
     (let c = SessionBegin svchp errhp usrhp credt mode; rv = N (trace w) c
      in (rv, log_events [Called c rv] w))"

definition WrapOCILogon ::
  "native \<Rightarrow> handle \<Rightarrow> handle \<Rightarrow> string \<Rightarrow> 32 word \<Rightarrow> string \<Rightarrow> 32 word \<Rightarrow> string \<Rightarrow> 32 word
     \<Rightarrow> world \<Rightarrow> (sword \<times> handle) \<times> world" where
  "WrapOCILogon N envhp errhp user ulen pass plen host hlen w =
     (let c = Logon envhp errhp user ulen pass plen host hlen; rv = N (trace w) c in
      if rv = OCI_SUCCESS \<or> rv = OCI_SUCCESS_WITH_INFO
      then ((rv, fresh w),
            (log_events [Called c rv, Acquired OCI_HTYPE_SVCCTX (fresh w)] w)
              \<lparr>fresh := Suc (fresh w)\<rparr>)
      else ((rv, 0), log_events [Called c rv] w))"

definition OCITransCommit :: "native \<Rightarrow> handle \<Rightarrow> handle \<Rightarrow> 32 word \<Rightarrow> world \<Rightarrow> sword \<times> world" where
  "OCITransCommit N svchp errhp flags w =
     (let c = TransCommit svchp errhp flags; rv = N (trace w) c
      in (rv, log_events [Called c rv] w))"

definition OCITransRollback :: "native \<Rightarrow> handle \<Rightarrow> handle \<Rightarrow> 32 word \<Rightarrow> world \<Rightarrow> sword \<times> world" where
  "OCITransRollback N svchp errhp flags w =
     (let c = TransRollback svchp errhp flags; rv = N (trace w) c
      in (rv, log_events [Called c rv] w))"

text \<open>What a trace acquired and what it released, each in the order of the trace.\<close>

fun acquired :: "event list \<Rightarrow> (htype \<times> handle) list" where
  "acquired [] = []"
| "acquired (Acquired t h # evs) = (t, h) # acquired evs"
| "acquired (e # evs) = acquired evs"

fun released :: "event list \<Rightarrow> (htype \<times> handle) list" where
  "released [] = []"
| "released (Released t h # evs) = (t, h) # released evs"
| "released (e # evs) = released evs"

text \<open>The handles a trace acquired and never released.\<close>

definition leaked :: "event list \<Rightarrow> (htype \<times> handle) list" where
  "leaked evs = filter (\<lambda>x. x \<notin> set (released evs)) (acquired evs)"

section \<open>Connections and transactions\<close>

datatype logger = DiscardLogger | DriverLogger nat

record OCI8DriverStruct =
  Logger :: "logger option"

text \<open>
  The struct \<open>OCI8Conn\<close>; handles are pointers (0 is nil). The fields that share a
  name with a field of \<open>DSN\<close> carry the prefix \<open>conn_\<close>.
\<close>

record OCI8Conn =
  svc :: handle
  srv :: handle
  env :: handle
  errHandle :: handle
  usrSession :: handle
  conn_prefetchRows :: "32 word"
  conn_prefetchMemory :: "32 word"
  conn_location :: "location option"
  conn_transactionMode :: "32 word"
  conn_operationMode :: "32 word"
  inTransaction :: bool
  conn_enableQMPlaceholders :: bool
  logger :: "logger option"

definition OCI8Conn_zero :: OCI8Conn where
  "OCI8Conn_zero = \<lparr> svc = 0, srv = 0, env = 0, errHandle = 0, usrSession = 0,
      conn_prefetchRows = 0, conn_prefetchMemory = 0, conn_location = None,
      conn_transactionMode = 0, conn_operationMode = 0, inTransaction = False,
      conn_enableQMPlaceholders = False, logger = None \<rparr>"

record OCI8Tx =
  conn :: OCI8Conn

text \<open>
  Modelled from the spec: the method \<open>getError\<close> is not in oci8.go. By section 4.2
  (native-diagnostic convention) it retrieves the diagnostic from the connection's error
  handle for the failing status and wraps it as the returned error.
\<close>

definition getError :: "OCI8Conn \<Rightarrow> sword \<Rightarrow> error" where
  "getError c rv = NativeDiagnostic (errHandle c) rv"

section \<open>Commit and Rollback\<close>

text \<open>
  Lines 128 to 149. \<open>tx.conn\<close> is a pointer to the owning connection; the model
  returns the error (\<open>None\<close> is nil), the transaction with its updated connection, and
  the world.
\<close>

definition Commit :: "native \<Rightarrow> OCI8Tx \<Rightarrow> world \<Rightarrow> error option \<times> OCI8Tx \<times> world" where
  "Commit N tx0 w0 =
     (let tx = tx0\<lparr>conn := (conn tx0)\<lparr>inTransaction := False\<rparr>\<rparr>;
          (rv, w) = OCITransCommit N (svc (conn tx)) (errHandle (conn tx)) 0 w0
      in if rv \<noteq> OCI_SUCCESS then (Some (getError (conn tx) rv), tx, w)
         else (None, tx, w))"

definition Rollback :: "native \<Rightarrow> OCI8Tx \<Rightarrow> world \<Rightarrow> error option \<times> OCI8Tx \<times> world" where
  "Rollback N tx0 w0 =
     (let tx = tx0\<lparr>conn := (conn tx0)\<lparr>inTransaction := False\<rparr>\<rparr>;
          (rv, w) = OCITransRollback N (svc (conn tx)) (errHandle (conn tx)) 0 w0
      in if rv \<noteq> OCI_SUCCESS then (Some (getError (conn tx) rv), tx, w)
         else (None, tx, w))"

section \<open>Open\<close>

text \<open>
  The session-protocol branch, lines 199 to 347 (\<open>useOCISessionBegin\<close> is true). It
  starts with \<open>env\<close> and \<open>errHandle\<close> already held by \<open>conn0\<close>. The statuses of
  \<open>WrapOCIServerAttach\<close> and \<open>WrapOCISessionBegin\<close> are not read by the source.
\<close>

definition Open_SessionBegin ::
  "native \<Rightarrow> DSN \<Rightarrow> OCI8Conn \<Rightarrow> world \<Rightarrow> (error + OCI8Conn) \<times> world" where
  "Open_SessionBegin N dsn conn0 w0 =
    (let ((rv, ptr), w) = WrapOCIHandleAlloc N (env conn0) OCI_HTYPE_SERVER 0 w0 in
     if rv \<noteq> OCI_SUCCESS then
       (let err = Error ''cant allocate server handle'';
            w = OCIHandleFree (errHandle conn0) OCI_HTYPE_ERROR w;
            w = OCIHandleFree (env conn0) OCI_HTYPE_ENV w
        in (Inl err, w))
     else
      (let conn = conn0\<lparr>srv := ptr\<rparr>;
           (ignored, w) =
             (if externalauthentication dsn
              then WrapOCIServerAttach N (srv conn) (errHandle conn) None 0 OCI_DEFAULT w
              else WrapOCIServerAttach N (srv conn) (errHandle conn) (Some (Connect dsn))
                     (of_nat (length (Connect dsn))) OCI_DEFAULT w);
           ((rv, ptr), w) = WrapOCIHandleAlloc N (env conn) OCI_HTYPE_SVCCTX 0 w
       in
       if rv \<noteq> OCI_SUCCESS then
         (let err = Error ''cant allocate service handle'';
              w = OCIHandleFree (srv conn) OCI_HTYPE_SERVER w;
              w = OCIHandleFree (errHandle conn) OCI_HTYPE_ERROR w;
              w = OCIHandleFree (env conn) OCI_HTYPE_ENV w
          in (Inl err, w))
       else
        (let conn = conn\<lparr>svc := ptr\<rparr>;
             (rv, w) = OCIAttrSet N (svc conn) OCI_HTYPE_SVCCTX (HandlePtr (srv conn)) 0
                         OCI_ATTR_SERVER (errHandle conn) w
         in
         if rv \<noteq> OCI_SUCCESS then
           (let err = getError conn rv;
                w = OCIHandleFree (svc conn) OCI_HTYPE_SVCCTX w;
                w = OCIHandleFree (srv conn) OCI_HTYPE_SERVER w;
                w = OCIHandleFree (errHandle conn) OCI_HTYPE_ERROR w;
                w = OCIHandleFree (env conn) OCI_HTYPE_ENV w
            in (Inl err, w))
         else
          (let ((rv, ptr), w) = WrapOCIHandleAlloc N (env conn) OCI_HTYPE_SESSION 0 w in
           if rv \<noteq> OCI_SUCCESS then
             (let err = Error ''cant allocate user session handle'';
                  w = OCIHandleFree (svc conn) OCI_HTYPE_SVCCTX w;
                  w = OCIHandleFree (srv conn) OCI_HTYPE_SERVER w;
                  w = OCIHandleFree (errHandle conn) OCI_HTYPE_ERROR w;
                  w = OCIHandleFree (env conn) OCI_HTYPE_ENV w
              in (Inl err, w))
           else
            (let conn = conn\<lparr>usrSession := ptr\<rparr>;
                 (failed, w) =
                   (if \<not> externalauthentication dsn then
                      (let (rv, w) = OCIAttrSet N (usrSession conn) OCI_HTYPE_SESSION
                                       (Text (Username dsn)) (of_nat (length (Username dsn)))
                                       OCI_ATTR_USERNAME (errHandle conn) w
                       in
                       if rv \<noteq> OCI_SUCCESS then
                         (let err = getError conn rv;
                              w = OCIHandleFree (usrSession conn) OCI_HTYPE_SESSION w;
                              w = OCIHandleFree (svc conn) OCI_HTYPE_SVCCTX w;
                              w = OCIHandleFree (srv conn) OCI_HTYPE_SERVER w;
                              w = OCIHandleFree (errHandle conn) OCI_HTYPE_ERROR w;
                              w = OCIHandleFree (env conn) OCI_HTYPE_ENV w
                          in (Some err, w))
                       else
                        (let (rv, w) = OCIAttrSet N (usrSession conn) OCI_HTYPE_SESSION
                                         (Text (Password dsn)) (of_nat (length (Password dsn)))
                                         OCI_ATTR_PASSWORD (errHandle conn) w
                         in
                         if rv \<noteq> OCI_SUCCESS then
                           (let err = getError conn rv;
                                w = OCIHandleFree (usrSession conn) OCI_HTYPE_SESSION w;
                                w = OCIHandleFree (svc conn) OCI_HTYPE_SVCCTX w;
                                w = OCIHandleFree (srv conn) OCI_HTYPE_SERVER w;
                                w = OCIHandleFree (errHandle conn) OCI_HTYPE_ERROR w;
                                w = OCIHandleFree (env conn) OCI_HTYPE_ENV w
                            in (Some err, w))
                         else
                          (let (ignored, w) = WrapOCISessionBegin N (svc conn) (errHandle conn)
                                                (usrSession conn) OCI_CRED_RDBMS
                                                (conn_operationMode conn) w
                           in (None, w))))
                    else
                      (let (ignored, w) = WrapOCISessionBegin N (svc conn) (errHandle conn)
                                            (usrSession conn) OCI_CRED_EXT
                                            (conn_operationMode conn) w
                       in (None, w)))
             in
             case failed of
               Some err \<Rightarrow> (Inl err, w)
             | None \<Rightarrow>
                (let (rv, w) = OCIAttrSet N (svc conn) OCI_HTYPE_SVCCTX
                                 (HandlePtr (usrSession conn)) 0 OCI_ATTR_SESSION
                                 (errHandle conn) w
                 in
                 if rv \<noteq> OCI_SUCCESS then
                   (let err = getError conn rv;
                        w = OCIHandleFree (usrSession conn) OCI_HTYPE_SESSION w;
                        w = OCIHandleFree (svc conn) OCI_HTYPE_SVCCTX w;
                        w = OCIHandleFree (srv conn) OCI_HTYPE_SERVER w;
                        w = OCIHandleFree (errHandle conn) OCI_HTYPE_ERROR w;
                        w = OCIHandleFree (env conn) OCI_HTYPE_ENV w
                    in (Inl err, w))
                 else (Inr conn, w)))))))"

text \<open>The direct-logon branch, lines 350 to 367 (\<open>useOCISessionBegin\<close> is false).\<close>

definition Open_Logon ::
  "native \<Rightarrow> DSN \<Rightarrow> OCI8Conn \<Rightarrow> world \<Rightarrow> (error + OCI8Conn) \<times> world" where
  "Open_Logon N dsn conn0 w0 =
    (let ((rv, ptr), w) = WrapOCILogon N (env conn0) (errHandle conn0)
                            (Username dsn) (of_nat (length (Username dsn)))
                            (Password dsn) (of_nat (length (Password dsn)))
                            (Connect dsn) (of_nat (length (Connect dsn))) w0
     in
     if rv \<noteq> OCI_SUCCESS \<and> rv \<noteq> OCI_SUCCESS_WITH_INFO then
       (let err = getError conn0 rv;
            w = OCIHandleFree (errHandle conn0) OCI_HTYPE_ERROR w;
            w = OCIHandleFree (env conn0) OCI_HTYPE_ENV w
        in (Inl err, w))
     else (Inr (conn0\<lparr>svc := ptr\<rparr>), w))"

definition cant_OCIEnvCreate :: string where
  "cant_OCIEnvCreate = ''can'' @ [CHR 0x27] @ ''t OCIEnvCreate''"

text \<open>
  \<open>Open\<close> (lines 152 to 380). \<open>useOCISessionBegin\<close> is a variable of the package,
  declared in another file; it is a parameter here. The C copies of the three strings
  (lines 191 to 196) are freed by \<open>defer\<close> on every exit and are not native handles;
  the calls receive the strings themselves.
\<close>

definition Open ::
  "native \<Rightarrow> helpers \<Rightarrow> bool \<Rightarrow> OCI8DriverStruct \<Rightarrow> string \<Rightarrow> world
     \<Rightarrow> (error + OCI8Conn) \<times> world" where
  "Open N H useOCISessionBegin oci8Driver dsnString w0 =
    (case ParseDSN H dsnString of
       Inl err \<Rightarrow> (Inl err, w0)
     | Inr dsn \<Rightarrow>
        (let conn = OCI8Conn_zero\<lparr>conn_operationMode := operationMode dsn,
                                   logger := Logger oci8Driver\<rparr>;
             conn = (if logger conn = None then conn\<lparr>logger := Some DiscardLogger\<rparr>
                     else conn);
             ((rv, ptr), w) = WrapOCIEnvCreate N (OCI_DEFAULT OR OCI_THREADED) 0 w0
         in
         if rv \<noteq> OCI_SUCCESS \<and> rv \<noteq> OCI_SUCCESS_WITH_INFO then
           (Inl (Error cant_OCIEnvCreate), w)
         else
          (let conn = conn\<lparr>env := ptr\<rparr>;
               ((rv, ptr), w) = WrapOCIHandleAlloc N (env conn) OCI_HTYPE_ERROR 0 w
           in
           if rv \<noteq> OCI_SUCCESS then
             (let err = Error ''cant allocate error handle'';
                  w = OCIHandleFree (env conn) OCI_HTYPE_ENV w
              in (Inl err, w))
           else
            (let conn = conn\<lparr>errHandle := ptr\<rparr>;
                 (res, w) = (if useOCISessionBegin then Open_SessionBegin N dsn conn w
                             else Open_Logon N dsn conn w)
             in
             case res of
               Inl err \<Rightarrow> (Inl err, w)
             | Inr conn \<Rightarrow>
                (let conn = conn\<lparr>conn_location := Location dsn\<rparr>;
                     conn = conn\<lparr>conn_transactionMode := transactionMode dsn\<rparr>;
                     conn = conn\<lparr>conn_prefetchRows := prefetchRows dsn\<rparr>;
                     conn = conn\<lparr>conn_prefetchMemory := prefetchMemory dsn\<rparr>;
                     conn = conn\<lparr>conn_enableQMPlaceholders := enableQMPlaceholders dsn\<rparr>
                 in (Inr conn, w))))))"

definition new_world :: world where
  "new_world = \<lparr> trace = [], fresh = 1 \<rparr>"

text \<open>
  Fake native layers for concrete runs: \<open>fake_native sel rv\<close> answers \<open>rv\<close> to the
  calls that \<open>sel\<close> selects and \<open>OCI_SUCCESS\<close> to every other call.
\<close>

definition OCI_ERROR :: sword where "OCI_ERROR = - 1"

definition fake_native :: "(call \<Rightarrow> bool) \<Rightarrow> sword \<Rightarrow> native" where
  "fake_native sel rv tr c = (if sel c then rv else OCI_SUCCESS)"

fun is_EnvCreate :: "call \<Rightarrow> bool" where
  "is_EnvCreate (EnvCreate mode extra) = True"
| "is_EnvCreate c = False"

fun is_Logon :: "call \<Rightarrow> bool" where
  "is_Logon (Logon e h u ul p pl c cl) = True"
| "is_Logon c = False"

fun is_set_session :: "call \<Rightarrow> bool" where
  "is_set_session (AttrSet h t v sz a e) = (a = OCI_ATTR_SESSION)"
| "is_set_session c = False"

fun is_trans :: "call \<Rightarrow> bool" where
  "is_trans (TransCommit s e f) = True"
| "is_trans (TransRollback s e f) = True"
| "is_trans c = False"

section \<open>Facts about the constants and the trace\<close>

lemmas oci_consts =
  OCI_DEFAULT_def OCI_THREADED_def OCI_SYSDBA_def OCI_SYSOPER_def OCI_SYSASM_def
  OCI_TRANS_READONLY_def OCI_TRANS_READWRITE_def OCI_TRANS_SERIALIZABLE_def
  OCI_SUCCESS_def OCI_SUCCESS_WITH_INFO_def OCI_ERROR_def

lemmas native_defs =
  WrapOCIEnvCreate_def WrapOCIHandleAlloc_def OCIHandleFree_def WrapOCIServerAttach_def
  OCIAttrSet_def WrapOCISessionBegin_def WrapOCILogon_def OCITransCommit_def
  OCITransRollback_def log_events_def fake_native_def new_world_def getError_def
  OCI8Conn_zero_def

section \<open>The switch of ParseDSN, key by key\<close>

lemma applyParam_loc:
  "applyParam H d ''loc'' v =
     (if length v > 0 then
        (case LoadLocation H (v ! 0) of
           Inl err \<Rightarrow> Inl (Error (''Invalid loc: '' @ v ! 0 @ '': '' @ error_text err))
         | Inr l \<Rightarrow> Inr (d\<lparr>Location := Some l\<rparr>))
      else Inr d)"
  by (simp add: applyParam_def)

lemma applyParam_isolation:
  "applyParam H d ''isolation'' v =
     (case v of [] \<Rightarrow> Inl index_panic
      | v0 # _ \<Rightarrow>
        if v0 = ''READONLY'' then Inr (d\<lparr>transactionMode := OCI_TRANS_READONLY\<rparr>)
        else if v0 = ''SERIALIZABLE'' then Inr (d\<lparr>transactionMode := OCI_TRANS_SERIALIZABLE\<rparr>)
        else if v0 = ''DEFAULT'' then Inr (d\<lparr>transactionMode := OCI_TRANS_READWRITE\<rparr>)
        else Inl (Error (''Invalid isolation: '' @ v0)))"
  by (simp add: applyParam_def)

lemma applyParam_questionph:
  "applyParam H d ''questionph'' v =
     (case v of [] \<Rightarrow> Inl index_panic
      | v0 # _ \<Rightarrow>
        if v0 = ''YES'' \<or> v0 = ''TRUE'' then Inr (d\<lparr>enableQMPlaceholders := True\<rparr>)
        else if v0 = ''NO'' \<or> v0 = ''FALSE'' then Inr (d\<lparr>enableQMPlaceholders := False\<rparr>)
        else Inl (Error (''Invalid questionpm: '' @ v0)))"
  by (simp add: applyParam_def)

lemma applyParam_prefetch_rows:
  "applyParam H d ''prefetch_rows'' v =
     (case v of [] \<Rightarrow> Inl index_panic
      | v0 # _ \<Rightarrow>
        (case ParseUint10 v0 32 of
           Inl err \<Rightarrow> Inl (Error (''invalid prefetch_rows: '' @ v0))
         | Inr z \<Rightarrow> Inr (d\<lparr>prefetchRows := of_nat z\<rparr>)))"
  by (simp add: applyParam_def)

lemma applyParam_prefetch_memory:
  "applyParam H d ''prefetch_memory'' v =
     (case v of [] \<Rightarrow> Inl index_panic
      | v0 # _ \<Rightarrow>
        (case ParseUint10 v0 32 of
           Inl err \<Rightarrow> Inl (Error (''invalid prefetch_memory: '' @ v0))
         | Inr z \<Rightarrow> Inr (d\<lparr>prefetchMemory := of_nat z\<rparr>)))"
  by (simp add: applyParam_def)

lemma applyParam_as:
  "applyParam H d ''as'' v =
     (case v of [] \<Rightarrow> Inl index_panic
      | v0 # _ \<Rightarrow>
        if v0 = ''SYSDBA'' \<or> v0 = ''sysdba'' then Inr (d\<lparr>operationMode := OCI_SYSDBA\<rparr>)
        else if v0 = ''SYSASM'' \<or> v0 = ''sysasm'' then Inr (d\<lparr>operationMode := OCI_SYSASM\<rparr>)
        else if v0 = ''SYSOPER'' \<or> v0 = ''sysoper'' then Inr (d\<lparr>operationMode := OCI_SYSOPER\<rparr>)
        else Inl (Error (''Invalid as: '' @ v0)))"
  by (simp add: applyParam_def)

lemma applyParam_other:
  "k \<noteq> ''loc'' \<Longrightarrow> k \<noteq> ''isolation'' \<Longrightarrow> k \<noteq> ''questionph'' \<Longrightarrow> k \<noteq> ''prefetch_rows''
    \<Longrightarrow> k \<noteq> ''prefetch_memory'' \<Longrightarrow> k \<noteq> ''as'' \<Longrightarrow> applyParam H d k v = Inr d"
  by (simp add: applyParam_def)


lemmas applyParam_key =
  applyParam_loc applyParam_isolation applyParam_questionph applyParam_prefetch_rows
  applyParam_prefetch_memory applyParam_as

text \<open>
  Each case of the switch writes one field of the configuration and leaves the others
  as they are; a key that is not recognised changes nothing.
\<close>

lemma applyParam_frame:
  assumes "applyParam H d k v = Inr d'"
  shows "Username d' = Username d \<and> Password d' = Password d \<and> Connect d' = Connect d
     \<and> externalauthentication d' = externalauthentication d
     \<and> (''prefetch_rows'' \<noteq> k \<longrightarrow> prefetchRows d' = prefetchRows d)
     \<and> (''prefetch_memory'' \<noteq> k \<longrightarrow> prefetchMemory d' = prefetchMemory d)
     \<and> (''as'' \<noteq> k \<longrightarrow> operationMode d' = operationMode d)
     \<and> (''loc'' \<noteq> k \<longrightarrow> Location d' = Location d)
     \<and> (''questionph'' \<noteq> k \<longrightarrow> enableQMPlaceholders d' = enableQMPlaceholders d)
     \<and> (''isolation'' \<noteq> k \<longrightarrow> transactionMode d' = transactionMode d)"
proof -
  note eq = assms [symmetric]
  consider (loc) "k = ''loc''" | (iso) "k = ''isolation''" | (qph) "k = ''questionph''"
    | (rows) "k = ''prefetch_rows''" | (mem) "k = ''prefetch_memory''" | (as) "k = ''as''"
    | (other) "k \<noteq> ''loc''" "k \<noteq> ''isolation''" "k \<noteq> ''questionph''"
        "k \<noteq> ''prefetch_rows''" "k \<noteq> ''prefetch_memory''" "k \<noteq> ''as''"
    by blast
  then show ?thesis
  proof cases
    case loc
    with eq show ?thesis
      by (simp add: applyParam_loc split: if_split_asm sum.split_asm)
  next
    case iso
    with eq show ?thesis
      by (cases v) (simp_all add: applyParam_isolation split: if_split_asm)
  next
    case qph
    with eq show ?thesis
      by (cases v) (simp_all add: applyParam_questionph split: if_split_asm)
  next
    case rows
    with eq show ?thesis
      by (cases v) (simp_all add: applyParam_prefetch_rows split: sum.split_asm)
  next
    case mem
    with eq show ?thesis
      by (cases v) (simp_all add: applyParam_prefetch_memory split: sum.split_asm)
  next
    case as
    with eq show ?thesis
      by (cases v) (simp_all add: applyParam_as split: if_split_asm)
  next
    case other
    with eq show ?thesis
      by (simp add: applyParam_other)
  qed
qed

lemma rangeParams_Cons_Inr:
  assumes "rangeParams H d ((k, v) # qp) = Inr d'"
  obtains d1 where "applyParam H d k v = Inr d1" "rangeParams H d1 qp = Inr d'"
  using assms that by (cases "applyParam H d k v") simp_all

lemma rangeParams_frame:
  "rangeParams H d qp = Inr d' \<Longrightarrow>
     Username d' = Username d \<and> Password d' = Password d \<and> Connect d' = Connect d
     \<and> externalauthentication d' = externalauthentication d
     \<and> (''prefetch_rows'' \<notin> fst ` set qp \<longrightarrow> prefetchRows d' = prefetchRows d)
     \<and> (''prefetch_memory'' \<notin> fst ` set qp \<longrightarrow> prefetchMemory d' = prefetchMemory d)
     \<and> (''as'' \<notin> fst ` set qp \<longrightarrow> operationMode d' = operationMode d)
     \<and> (''loc'' \<notin> fst ` set qp \<longrightarrow> Location d' = Location d)
     \<and> (''questionph'' \<notin> fst ` set qp \<longrightarrow> enableQMPlaceholders d' = enableQMPlaceholders d)
     \<and> (''isolation'' \<notin> fst ` set qp \<longrightarrow> transactionMode d' = transactionMode d)"
proof (induction qp arbitrary: d)
  case Nil
  then show ?case by simp
next
  case (Cons kv qp)
  obtain k v where kv: "kv = (k, v)" by (cases kv)
  from Cons.prems kv obtain d1 where
    a: "applyParam H d k v = Inr d1" and r: "rangeParams H d1 qp = Inr d'"
    by (cases "applyParam H d k v") auto
  from applyParam_frame [OF a] Cons.IH [OF r] kv show ?case
    by simp
qed

section \<open>What a successful ParseDSN went through\<close>

lemma ParseDSN_Inr:
  assumes "ParseDSN H s = Inr cfg"
  obtains d0 d1 where
    "rangeParams H d0 (dsn_query H s) = Inr d1"
    "prefetchRows d0 = 10" "prefetchMemory d0 = 0" "operationMode d0 = OCI_DEFAULT"
    "Location d0 = Some Local" "enableQMPlaceholders d0 = False"
    "externalauthentication d0 = False" "transactionMode d0 = 0"
    "cfg = (if length (Username d1) + length (Password d1) + length (Connect d1) = 0
            then d1\<lparr>externalauthentication := True\<rparr> else d1)"
proof -
  define s1 where "s1 = (if HasPrefix s prefix then drop (length prefix) s else s)"
  obtain authority rest where sp1: "splitRight H s1 ''@'' = (authority, rest)"
    by (cases "splitRight H s1 ''@''")
  obtain host params where sp2: "splitRight H rest ''?'' = (host, params)"
    by (cases "splitRight H rest ''?''")
  obtain qp qerr where pq: "ParseQuery H params = (qp, qerr)"
    by (cases "ParseQuery H params")
  have q: "dsn_query H s = qp"
    by (simp add: dsn_query_def dsn_params_def s1_def [symmetric] sp1 sp2 pq)
  from assms have ne: "s \<noteq> []"
    by (auto simp: ParseDSN_def)
  have "\<exists>d0 d1. rangeParams H d0 qp = Inr d1 \<and> prefetchRows d0 = 10 \<and> prefetchMemory d0 = 0
      \<and> operationMode d0 = OCI_DEFAULT \<and> Location d0 = Some Local
      \<and> enableQMPlaceholders d0 = False \<and> externalauthentication d0 = False
      \<and> transactionMode d0 = 0
      \<and> cfg = (if length (Username d1) + length (Password d1) + length (Connect d1) = 0
            then d1\<lparr>externalauthentication := True\<rparr> else d1)"
    using assms [symmetric] ne
    apply (simp add: ParseDSN_def Let_def s1_def [symmetric] sp1 sp2 pq 
         cong: sum.case_cong split: if_split_asm sum.split_asm prod.split_asm split del: if_split)
    apply (clarsimp simp: DSN_zero_def split del: if_split, (rule exI)+, rule conjI, assumption, simp add: DSN_zero_def)+
    done
  with q that show thesis by blast
qed

lemma rangeParams_member_ok:
  "rangeParams H d qp = Inr d' \<Longrightarrow> (k, v) \<in> set qp \<Longrightarrow> \<exists>da db. applyParam H da k v = Inr db"
proof (induction qp arbitrary: d)
  case Nil
  then show ?case by simp
next
  case (Cons kv qp)
  obtain k1 v1 where kv: "kv = (k1, v1)" by (cases kv)
  from Cons.prems(1) kv obtain d1 where
    a: "applyParam H d k1 v1 = Inr d1" and r: "rangeParams H d1 qp = Inr d'"
    by (cases "applyParam H d k1 v1") auto
  show ?case
  proof (cases "(k, v) = kv")
    case True
    with a kv show ?thesis by blast
  next
    case False
    with Cons.prems(2) have "(k, v) \<in> set qp" by simp
    from Cons.IH [OF r this] show ?thesis .
  qed
qed

lemma applyParam_as_Inr:
  assumes "applyParam H d ''as'' (v0 # vs) = Inr d'"
  shows "((v0 = ''SYSDBA'' \<or> v0 = ''sysdba'') \<and> operationMode d' = OCI_SYSDBA)
       \<or> ((v0 = ''SYSASM'' \<or> v0 = ''sysasm'') \<and> operationMode d' = OCI_SYSASM)
       \<or> ((v0 = ''SYSOPER'' \<or> v0 = ''sysoper'') \<and> operationMode d' = OCI_SYSOPER)"
  using assms [symmetric]
  by (simp add: applyParam_as split: if_split_asm)

lemma rangeParams_as:
  "rangeParams H d qp = Inr d' \<Longrightarrow> distinct (map fst qp) \<Longrightarrow> (''as'', v0 # vs) \<in> set qp \<Longrightarrow>
     ((v0 = ''SYSDBA'' \<or> v0 = ''sysdba'') \<and> operationMode d' = OCI_SYSDBA)
       \<or> ((v0 = ''SYSASM'' \<or> v0 = ''sysasm'') \<and> operationMode d' = OCI_SYSASM)
       \<or> ((v0 = ''SYSOPER'' \<or> v0 = ''sysoper'') \<and> operationMode d' = OCI_SYSOPER)"
proof (induction qp arbitrary: d)
  case Nil
  then show ?case by simp
next
  case (Cons kv qp)
  obtain k1 v1 where kv: "kv = (k1, v1)" by (cases kv)
  from Cons.prems(1) kv obtain d1 where
    a: "applyParam H d k1 v1 = Inr d1" and r: "rangeParams H d1 qp = Inr d'"
    by (cases "applyParam H d k1 v1") auto
  show ?case
  proof (cases "(''as'', v0 # vs) = kv")
    case True
    with kv have k1: "k1 = ''as''" and v1: "v1 = v0 # vs" by simp_all
    from Cons.prems(2) kv k1 have "''as'' \<notin> fst ` set qp" by simp
    with rangeParams_frame [OF r] have "operationMode d' = operationMode d1" by simp
    with applyParam_as_Inr [OF a [unfolded k1 v1]] show ?thesis by simp
  next
    case False
    with Cons.prems(3) have m: "(''as'', v0 # vs) \<in> set qp" by simp
    from Cons.prems(2) have "distinct (map fst qp)" by simp
    from Cons.IH [OF r this m] show ?thesis .
  qed
qed

text \<open>
  \<open>ParseDSN\<close> is the steps before the query, then the loop over the query mapping,
  then the external-authentication test.
\<close>

lemma ParseDSN_unfold:
  "ParseDSN H s =
     (case dsn_before_query H s of
        Inl err \<Rightarrow> Inl err
      | Inr d0 \<Rightarrow>
         (case rangeParams H d0 (dsn_query H s) of
            Inl err \<Rightarrow> Inl err
          | Inr d \<Rightarrow>
              Inr (if length (Username d) + length (Password d) + length (Connect d) = 0
                   then d\<lparr>externalauthentication := True\<rparr> else d)))"
proof -
  define s1 where "s1 = (if HasPrefix s prefix then drop (length prefix) s else s)"
  obtain authority rest where sp1: "splitRight H s1 ''@'' = (authority, rest)"
    by (cases "splitRight H s1 ''@''")
  obtain host params where sp2: "splitRight H rest ''?'' = (host, params)"
    by (cases "splitRight H rest ''?''")
  obtain qp qerr where pq: "ParseQuery H params = (qp, qerr)"
    by (cases "ParseQuery H params")
  have q: "dsn_query H s = qp"
    by (simp add: dsn_query_def dsn_params_def s1_def [symmetric] sp1 sp2 pq)
  show ?thesis
    unfolding q
    by (cases "s = []"; cases "authority = []"; cases "parseAuthority H authority";
        cases "unescape H host encodeHost")
       (simp_all add: ParseDSN_def dsn_before_query_def Let_def s1_def [symmetric] sp1 sp2 pq
          split: prod.split split del: if_split)
qed

lemma applyParam_as_eq:
  "applyParam H d ''as'' (v # vs) =
     (if v = ''SYSDBA'' \<or> v = ''sysdba'' then Inr (d\<lparr>operationMode := OCI_SYSDBA\<rparr>)
      else if v = ''SYSASM'' \<or> v = ''sysasm'' then Inr (d\<lparr>operationMode := OCI_SYSASM\<rparr>)
      else if v = ''SYSOPER'' \<or> v = ''sysoper'' then Inr (d\<lparr>operationMode := OCI_SYSOPER\<rparr>)
      else Inl (Error (''Invalid as: '' @ v)))"
  by (simp add: applyParam_as)

lemma rangeParams_all_ok:
  "(\<And>k vals d. (k, vals) \<in> set qp \<Longrightarrow> \<exists>d'. applyParam H d k vals = Inr d')
     \<Longrightarrow> \<exists>d'. rangeParams H d qp = Inr d'"
proof (induction qp arbitrary: d)
  case Nil
  then show ?case by simp
next
  case (Cons kv qp)
  obtain k v where kv: "kv = (k, v)" by (cases kv)
  from Cons.prems [of k v d] kv obtain d1 where a: "applyParam H d k v = Inr d1"
    by auto
  have "\<exists>d'. rangeParams H d1 qp = Inr d'"
    by (rule Cons.IH) (rule Cons.prems, simp)
  with a kv show ?case by simp
qed

section \<open>Concrete runs of ParseDSN\<close>

text \<open>
  The first example of section 8 of the specification, run through the model with the
  concrete helpers.
\<close>

lemma ParseUint10_20: "ParseUint10 ''20'' 32 = Inr 20"
  by (simp add: ParseUint10_def is_digit_def)

lemma run_spec_example:
  "ParseDSN (std_helpers [])
     ''oracle://u/p@host:1521/svc?loc=UTC&isolation=SERIALIZABLE&prefetch_rows=20&questionph=YES'' =
     Inr \<lparr>Connect = ''host:1521/svc'', Username = ''u'', Password = ''p'', prefetchRows = 20,
        prefetchMemory = 0, Location = Some UTC, transactionMode = OCI_TRANS_SERIALIZABLE,
        enableQMPlaceholders = True, operationMode = OCI_DEFAULT,
        externalauthentication = False\<rparr>"
proof -
  have sp1: "std_splitRight
      ''u/p@host:1521/svc?loc=UTC&isolation=SERIALIZABLE&prefetch_rows=20&questionph=YES'' ''@''
      = (''u/p'', ''host:1521/svc?loc=UTC&isolation=SERIALIZABLE&prefetch_rows=20&questionph=YES'')"
    by code_simp
  have pa: "std_parseAuthority ''u/p'' = Inr (''u'', ''p'')"
    by code_simp
  have sp2: "std_splitRight
      ''host:1521/svc?loc=UTC&isolation=SERIALIZABLE&prefetch_rows=20&questionph=YES'' ''?''
      = (''host:1521/svc'', ''loc=UTC&isolation=SERIALIZABLE&prefetch_rows=20&questionph=YES'')"
    by code_simp
  have ue: "std_unescape ''host:1521/svc'' encodeHost = Inr ''host:1521/svc''"
    by code_simp
  have pq: "std_ParseQuery ''loc=UTC&isolation=SERIALIZABLE&prefetch_rows=20&questionph=YES''
      = ([(''loc'', [''UTC'']), (''isolation'', [''SERIALIZABLE'']),
          (''prefetch_rows'', [''20'']), (''questionph'', [''YES''])], None)"
    by code_simp
  show ?thesis
    by (simp add: ParseDSN_def std_helpers_def HasPrefix_def prefix_def sp1 pa sp2 ue pq
          applyParam_key ParseUint10_20 std_LoadLocation_def DSN_zero_def oci_consts)
qed

lemma run_plain:
  "ParseDSN (std_helpers []) ''u/p@h?x=1'' =
     Inr \<lparr>Connect = ''h'', Username = ''u'', Password = ''p'', prefetchRows = 10,
        prefetchMemory = 0, Location = Some Local, transactionMode = 0,
        enableQMPlaceholders = False, operationMode = OCI_DEFAULT,
        externalauthentication = False\<rparr>"
  by code_simp

lemma run_plain_query: "dsn_query (std_helpers []) ''u/p@h?x=1'' = [(''x'', [''1''])]"
  by code_simp

lemma run_empty_parts:
  "ParseDSN (std_helpers []) ''@?'' =
     Inr \<lparr>Connect = [], Username = [], Password = [], prefetchRows = 10,
        prefetchMemory = 0, Location = Some Local, transactionMode = 0,
        enableQMPlaceholders = False, operationMode = OCI_DEFAULT,
        externalauthentication = True\<rparr>"
  by code_simp

lemma run_sysdba:
  "ParseDSN (std_helpers []) ''u/p@h?as=sysdba'' =
     Inr \<lparr>Connect = ''h'', Username = ''u'', Password = ''p'', prefetchRows = 10,
        prefetchMemory = 0, Location = Some Local, transactionMode = 0,
        enableQMPlaceholders = False, operationMode = OCI_SYSDBA,
        externalauthentication = False\<rparr>"
  by code_simp

lemma run_sysdba_query:
  "dsn_query (std_helpers []) ''u/p@h?as=sysdba'' = [(''as'', [''sysdba''])]"
  by code_simp

lemma run_mixed_case_query:
  "dsn_query (std_helpers []) ''u/p@h?as=SysDba'' = [(''as'', [''SysDba''])]"
  by code_simp

section \<open>Claims about ParseDSN\<close>

text \<open>
  Claim C2: if any parsing step of \<open>ParseDSN\<close> signals failure (empty input,
  authority parsing, host unescaping, query-string parsing, validation of a recognised
  parameter), \<open>ParseDSN\<close> returns that error and no configuration. The code does not
  do this for the query string: the error of \<open>ParseQuery\<close> is bound at line 65 and never
  read, while the errors of \<open>parseAuthority\<close> and \<open>unescape\<close> (lines 47 and 54) are
  returned. On the input below \<open>ParseQuery\<close> reports an invalid escape and
  \<open>ParseDSN\<close> still returns a configuration and no error.
\<close>

theorem ParseDSN_drops_query_error:
  "snd (ParseQuery (std_helpers [])
          (dsn_params (std_helpers []) ''oracle://u/p@host?loc=%zz''))
     = Some (Error ''invalid URL escape'')
   \<and> ParseDSN (std_helpers []) ''oracle://u/p@host?loc=%zz'' =
     Inr \<lparr>Connect = ''host'', Username = ''u'', Password = ''p'', prefetchRows = 10,
        prefetchMemory = 0, Location = Some Local, transactionMode = 0,
        enableQMPlaceholders = False, operationMode = OCI_DEFAULT,
        externalauthentication = False\<rparr>"
  by code_simp

text \<open>
  The other steps named by the claim do abort: whatever the helpers return, an error of
  \<open>ParseDSN\<close> carries no configuration (the result is \<open>Inl\<close>), and the empty input,
  a failing \<open>parseAuthority\<close> and a failing \<open>unescape\<close> each give \<open>Inl\<close>, and
  a configuration is returned only if every entry of the query mapping passed its case
  of the switch.
\<close>

lemma ParseDSN_empty: "ParseDSN H [] = Inl (Error ''empty dsn'')"
  by (simp add: ParseDSN_def)

lemma ParseDSN_authority_error:
  assumes "s \<noteq> []"
    and "splitRight H (if HasPrefix s prefix then drop (length prefix) s else s) ''@''
           = (authority, rest)"
    and "authority \<noteq> []"
    and "parseAuthority H authority = Inl err"
  shows "ParseDSN H s = Inl err"
  using assms by (simp add: ParseDSN_def Let_def)

lemma ParseDSN_unescape_error:
  assumes "s \<noteq> []"
    and "splitRight H (if HasPrefix s prefix then drop (length prefix) s else s) ''@''
           = (authority, rest)"
    and "authority = [] \<or> (\<exists>up. parseAuthority H authority = Inr up)"
    and "splitRight H rest ''?'' = (host, params)"
    and "unescape H host encodeHost = Inl err"
  shows "ParseDSN H s = Inl err"
  using assms by (auto simp: ParseDSN_def Let_def)

lemma ParseDSN_Inr_params_valid:
  assumes "ParseDSN H s = Inr cfg" and "(k, v) \<in> set (dsn_query H s)"
  shows "\<exists>da db. applyParam H da k v = Inr db"
proof -
  from assms(1) obtain d0 d1 where "rangeParams H d0 (dsn_query H s) = Inr d1"
    by (rule ParseDSN_Inr)
  from rangeParams_member_ok [OF this assms(2)] show ?thesis .
qed

text \<open>
  Claim C3, as stated: every case variant of SYSDBA, SYSASM or SYSOPER given as \<open>as\<close>
  (for instance \<open>SysDba\<close>) sets the privileged mode. The switch at lines 107 to 116
  lists the upper-case and the lower-case spelling only; the mixed-case value is
  rejected.
\<close>

theorem ParseDSN_as_mixed_case_rejected:
  "ParseDSN (std_helpers []) ''u/p@h?as=SysDba'' = Inl (Error ''Invalid as: SysDba'')"
  by code_simp

text \<open>
  Claim C3, amended: the value \<open>v\<close> of the \<open>as\<close> parameter is matched against
  exactly six spellings. SYSDBA or sysdba, SYSASM or sysasm, SYSOPER or sysoper (all
  upper case or all lower case) are accepted and select the corresponding privileged
  mode; any other value, a mixed-case variant included, makes \<open>ParseDSN\<close> fail with
  the error \<open>Invalid as\<close>. In four parts: with any other value \<open>ParseDSN\<close> fails;
  when \<open>ParseDSN\<close> succeeds the mode is the one that \<open>v\<close> names; with one of the
  six spellings \<open>ParseDSN\<close> succeeds whenever the steps before the query pass and
  every other entry of the query mapping passes its case of the switch; and the
  \<open>as\<close> case of the switch itself returns the configuration with the named mode
  for the six spellings and the error for every other value. The keys of a Go map
  are distinct, which is the second assumption.
\<close>

theorem ParseDSN_as:
  assumes "(''as'', v # vs) \<in> set (dsn_query H s)"
    and "distinct (map fst (dsn_query H s))"
  shows "(v \<notin> {''SYSDBA'', ''sysdba'', ''SYSASM'', ''sysasm'', ''SYSOPER'', ''sysoper''}
            \<longrightarrow> (\<exists>err. ParseDSN H s = Inl err))
       \<and> (\<forall>cfg. ParseDSN H s = Inr cfg \<longrightarrow>
             ((v = ''SYSDBA'' \<or> v = ''sysdba'') \<and> operationMode cfg = OCI_SYSDBA)
           \<or> ((v = ''SYSASM'' \<or> v = ''sysasm'') \<and> operationMode cfg = OCI_SYSASM)
           \<or> ((v = ''SYSOPER'' \<or> v = ''sysoper'') \<and> operationMode cfg = OCI_SYSOPER))
       \<and> (v \<in> {''SYSDBA'', ''sysdba'', ''SYSASM'', ''sysasm'', ''SYSOPER'', ''sysoper''}
            \<and> (\<exists>d0. dsn_before_query H s = Inr d0)
            \<and> (\<forall>(k, vals) \<in> set (dsn_query H s).
                   k \<noteq> ''as'' \<longrightarrow> (\<forall>d. \<exists>d'. applyParam H d k vals = Inr d'))
            \<longrightarrow> (\<exists>cfg. ParseDSN H s = Inr cfg))
       \<and> (\<forall>d. applyParam H d ''as'' (v # vs) =
             (if v = ''SYSDBA'' \<or> v = ''sysdba'' then Inr (d\<lparr>operationMode := OCI_SYSDBA\<rparr>)
              else if v = ''SYSASM'' \<or> v = ''sysasm'' then Inr (d\<lparr>operationMode := OCI_SYSASM\<rparr>)
              else if v = ''SYSOPER'' \<or> v = ''sysoper'' then Inr (d\<lparr>operationMode := OCI_SYSOPER\<rparr>)
              else Inl (Error (''Invalid as: '' @ v))))"
proof -
  have ok: "((v = ''SYSDBA'' \<or> v = ''sysdba'') \<and> operationMode cfg = OCI_SYSDBA)
           \<or> ((v = ''SYSASM'' \<or> v = ''sysasm'') \<and> operationMode cfg = OCI_SYSASM)
           \<or> ((v = ''SYSOPER'' \<or> v = ''sysoper'') \<and> operationMode cfg = OCI_SYSOPER)"
    if p: "ParseDSN H s = Inr cfg" for cfg
  proof -
    from p obtain d0 d1 where
      r: "rangeParams H d0 (dsn_query H s) = Inr d1"
      and c: "cfg = (if length (Username d1) + length (Password d1) + length (Connect d1) = 0
            then d1\<lparr>externalauthentication := True\<rparr> else d1)"
      by (rule ParseDSN_Inr)
    from c have "operationMode cfg = operationMode d1"
      by (simp split: if_splits)
    with rangeParams_as [OF r assms(2) assms(1)] show ?thesis by simp
  qed
  have fails: "\<exists>err. ParseDSN H s = Inl err"
    if n: "v \<notin> {''SYSDBA'', ''sysdba'', ''SYSASM'', ''sysasm'', ''SYSOPER'', ''sysoper''}"
  proof (cases "ParseDSN H s")
    case (Inl err)
    then show ?thesis by (rule exI)
  next
    case (Inr cfg)
    from ok [OF Inr] n have False by simp
    then show ?thesis ..
  qed
  have accepted: "\<exists>cfg. ParseDSN H s = Inr cfg"
    if six: "v \<in> {''SYSDBA'', ''sysdba'', ''SYSASM'', ''sysasm'', ''SYSOPER'', ''sysoper''}"
      and before: "\<exists>d0. dsn_before_query H s = Inr d0"
      and others: "\<forall>(k, vals) \<in> set (dsn_query H s).
                   k \<noteq> ''as'' \<longrightarrow> (\<forall>d. \<exists>d'. applyParam H d k vals = Inr d')"
  proof -
    from before obtain d0 where d0: "dsn_before_query H s = Inr d0" ..
    have as_ok: "\<exists>d'. applyParam H d ''as'' (v # vs) = Inr d'" for d
      using six by (elim insertE emptyE) (simp_all add: applyParam_as_eq)
    have each: "\<exists>d'. applyParam H d k vals = Inr d'"
      if m: "(k, vals) \<in> set (dsn_query H s)" for k vals d
    proof (cases "k = ''as''")
      case True
      from eq_key_imp_eq_value [OF assms(2) assms(1) m [unfolded True]]
      have "vals = v # vs" by simp
      with True as_ok show ?thesis by simp
    next
      case False
      with bspec [OF others m] show ?thesis by simp
    qed
    from rangeParams_all_ok [of "dsn_query H s" H d0, OF each]
    obtain d1 where "rangeParams H d0 (dsn_query H s) = Inr d1" ..
    with d0 show ?thesis
      by (simp add: ParseDSN_unfold)
  qed
  show ?thesis
  proof (intro conjI allI impI)
    assume "v \<notin> {''SYSDBA'', ''sysdba'', ''SYSASM'', ''sysasm'', ''SYSOPER'', ''sysoper''}"
    then show "\<exists>err. ParseDSN H s = Inl err" by (rule fails)
  next
    fix cfg
    assume "ParseDSN H s = Inr cfg"
    then show "((v = ''SYSDBA'' \<or> v = ''sysdba'') \<and> operationMode cfg = OCI_SYSDBA)
           \<or> ((v = ''SYSASM'' \<or> v = ''sysasm'') \<and> operationMode cfg = OCI_SYSASM)
           \<or> ((v = ''SYSOPER'' \<or> v = ''sysoper'') \<and> operationMode cfg = OCI_SYSOPER)"
      by (rule ok)
  next
    assume "v \<in> {''SYSDBA'', ''sysdba'', ''SYSASM'', ''sysasm'', ''SYSOPER'', ''sysoper''}
            \<and> (\<exists>d0. dsn_before_query H s = Inr d0)
            \<and> (\<forall>(k, vals) \<in> set (dsn_query H s).
                   k \<noteq> ''as'' \<longrightarrow> (\<forall>d. \<exists>d'. applyParam H d k vals = Inr d'))"
    then have "v \<in> {''SYSDBA'', ''sysdba'', ''SYSASM'', ''sysasm'', ''SYSOPER'', ''sysoper''}"
      and "\<exists>d0. dsn_before_query H s = Inr d0"
      and "\<forall>(k, vals) \<in> set (dsn_query H s).
                   k \<noteq> ''as'' \<longrightarrow> (\<forall>d. \<exists>d'. applyParam H d k vals = Inr d')"
      by (rule conjunct1, rule conjunct2 [THEN conjunct1], rule conjunct2 [THEN conjunct2])
    then show "\<exists>cfg. ParseDSN H s = Inr cfg"
      by (rule accepted)
  next
    fix d
    show "applyParam H d ''as'' (v # vs) =
             (if v = ''SYSDBA'' \<or> v = ''sysdba'' then Inr (d\<lparr>operationMode := OCI_SYSDBA\<rparr>)
              else if v = ''SYSASM'' \<or> v = ''sysasm'' then Inr (d\<lparr>operationMode := OCI_SYSASM\<rparr>)
              else if v = ''SYSOPER'' \<or> v = ''sysoper'' then Inr (d\<lparr>operationMode := OCI_SYSOPER\<rparr>)
              else Inl (Error (''Invalid as: '' @ v)))"
      by (rule applyParam_as_eq)
  qed
qed

theorem ParseDSN_as_witness:
  "(''as'', [''SYSOPER'']) \<in> set (dsn_query (std_helpers []) ''u/p@h?x=1&as=SYSOPER'')
   \<and> distinct (map fst (dsn_query (std_helpers []) ''u/p@h?x=1&as=SYSOPER''))
   \<and> ''SYSOPER'' \<in> {''SYSDBA'', ''sysdba'', ''SYSASM'', ''sysasm'', ''SYSOPER'', ''sysoper''}
   \<and> (\<exists>d0. dsn_before_query (std_helpers []) ''u/p@h?x=1&as=SYSOPER'' = Inr d0)
   \<and> (\<exists>cfg. ParseDSN (std_helpers []) ''u/p@h?x=1&as=SYSOPER'' = Inr cfg
          \<and> operationMode cfg = OCI_SYSOPER)
   \<and> (''as'', [''SysDba'']) \<in> set (dsn_query (std_helpers []) ''u/p@h?as=SysDba'')
   \<and> distinct (map fst (dsn_query (std_helpers []) ''u/p@h?as=SysDba''))
   \<and> ''SysDba'' \<notin> {''SYSDBA'', ''sysdba'', ''SYSASM'', ''sysasm'', ''SYSOPER'', ''sysoper''}
   \<and> (\<exists>err. ParseDSN (std_helpers []) ''u/p@h?as=SysDba'' = Inl err)"
proof -
  have q1: "dsn_query (std_helpers []) ''u/p@h?x=1&as=SYSOPER''
              = [(''x'', [''1'']), (''as'', [''SYSOPER''])]"
    by code_simp
  have m1: "(''as'', [''SYSOPER'']) \<in> set (dsn_query (std_helpers []) ''u/p@h?x=1&as=SYSOPER'')"
    and d1: "distinct (map fst (dsn_query (std_helpers []) ''u/p@h?x=1&as=SYSOPER''))"
    by (simp_all add: q1)
  have s1: "''SYSOPER'' \<in> {''SYSDBA'', ''sysdba'', ''SYSASM'', ''sysasm'', ''SYSOPER'', ''sysoper''}"
    by simp
  have "dsn_before_query (std_helpers []) ''u/p@h?x=1&as=SYSOPER'' =
     Inr \<lparr>Connect = ''h'', Username = ''u'', Password = ''p'', prefetchRows = 10,
        prefetchMemory = 0, Location = Some Local, transactionMode = 0,
        enableQMPlaceholders = False, operationMode = OCI_DEFAULT,
        externalauthentication = False\<rparr>"
    by code_simp
  then have b1: "\<exists>d0. dsn_before_query (std_helpers []) ''u/p@h?x=1&as=SYSOPER'' = Inr d0"
    by (rule exI)
  have o1: "\<forall>(k, vals) \<in> set (dsn_query (std_helpers []) ''u/p@h?x=1&as=SYSOPER'').
              k \<noteq> ''as'' \<longrightarrow> (\<forall>d. \<exists>d'. applyParam (std_helpers []) d k vals = Inr d')"
    by (simp add: q1 applyParam_other)
  have m2: "(''as'', [''SysDba'']) \<in> set (dsn_query (std_helpers []) ''u/p@h?as=SysDba'')"
    and d2: "distinct (map fst (dsn_query (std_helpers []) ''u/p@h?as=SysDba''))"
    by (simp_all add: run_mixed_case_query)
  have n2: "''SysDba'' \<notin> {''SYSDBA'', ''sysdba'', ''SYSASM'', ''sysasm'', ''SYSOPER'', ''sysoper''}"
    by simp
  note t1 = ParseDSN_as [OF m1 d1]
  have "\<exists>cfg. ParseDSN (std_helpers []) ''u/p@h?x=1&as=SYSOPER'' = Inr cfg"
    by (rule t1 [THEN conjunct2, THEN conjunct2, THEN conjunct1, THEN mp])
       (intro conjI s1 b1 o1)
  then obtain cfg where
    p: "ParseDSN (std_helpers []) ''u/p@h?x=1&as=SYSOPER'' = Inr cfg" ..
  from t1 [THEN conjunct2, THEN conjunct1, rule_format, OF p]
  have "operationMode cfg = OCI_SYSOPER"
    by simp
  with p have ok: "\<exists>cfg. ParseDSN (std_helpers []) ''u/p@h?x=1&as=SYSOPER'' = Inr cfg
          \<and> operationMode cfg = OCI_SYSOPER"
    by blast
  have bad: "\<exists>err. ParseDSN (std_helpers []) ''u/p@h?as=SysDba'' = Inl err"
    by (rule ParseDSN_as [OF m2 d2, THEN conjunct1, THEN mp]) (rule n2)
  from m1 d1 s1 b1 ok m2 d2 n2 bad show ?thesis
    by (intro conjI)
qed

text \<open>
  Claim C6: for every successfully parsed connection string, the
  external-authentication flag of the configuration is true if and only if the parsed
  username, password and connect string are all empty.
\<close>

theorem ParseDSN_external_authentication:
  assumes "ParseDSN H s = Inr cfg"
  shows "externalauthentication cfg
           = (Username cfg = [] \<and> Password cfg = [] \<and> Connect cfg = [])"
proof -
  from assms obtain d0 d1 where
    r: "rangeParams H d0 (dsn_query H s) = Inr d1" and e0: "externalauthentication d0 = False"
    and c: "cfg = (if length (Username d1) + length (Password d1) + length (Connect d1) = 0
            then d1\<lparr>externalauthentication := True\<rparr> else d1)"
    by (rule ParseDSN_Inr)
  from rangeParams_frame [OF r] e0 have e1: "externalauthentication d1 = False" by simp
  show ?thesis
  proof (cases "length (Username d1) + length (Password d1) + length (Connect d1) = 0")
    case True
    with c show ?thesis by simp
  next
    case False
    with c e1 show ?thesis by simp
  qed
qed

theorem ParseDSN_external_authentication_witness:
  "(\<exists>cfg. ParseDSN (std_helpers []) ''@?'' = Inr cfg
      \<and> Username cfg = [] \<and> Password cfg = [] \<and> Connect cfg = []
      \<and> externalauthentication cfg)
   \<and> (\<exists>cfg. ParseDSN (std_helpers []) ''u/p@h?x=1'' = Inr cfg
      \<and> Connect cfg \<noteq> [] \<and> \<not> externalauthentication cfg)"
  using ParseDSN_external_authentication [OF run_empty_parts]
    ParseDSN_external_authentication [OF run_plain]
  by (simp add: run_empty_parts run_plain)

text \<open>
  Claim C8: for every successfully parsed connection string, a parameter that the query
  omits keeps its default: prefetch rows 10 without \<open>prefetch_rows\<close>, prefetch memory 0
  without \<open>prefetch_memory\<close>, the default privileged mode without \<open>as\<close>, and the local
  time zone without \<open>loc\<close>.
\<close>

theorem ParseDSN_defaults:
  assumes "ParseDSN H s = Inr cfg"
  shows "(''prefetch_rows'' \<notin> fst ` set (dsn_query H s) \<longrightarrow> prefetchRows cfg = 10)
       \<and> (''prefetch_memory'' \<notin> fst ` set (dsn_query H s) \<longrightarrow> prefetchMemory cfg = 0)
       \<and> (''as'' \<notin> fst ` set (dsn_query H s) \<longrightarrow> operationMode cfg = OCI_DEFAULT)
       \<and> (''loc'' \<notin> fst ` set (dsn_query H s) \<longrightarrow> Location cfg = Some Local)"
proof -
  from assms obtain d0 d1 where
    r: "rangeParams H d0 (dsn_query H s) = Inr d1"
    and d0: "prefetchRows d0 = 10" "prefetchMemory d0 = 0" "operationMode d0 = OCI_DEFAULT"
      "Location d0 = Some Local"
    and c: "cfg = (if length (Username d1) + length (Password d1) + length (Connect d1) = 0
            then d1\<lparr>externalauthentication := True\<rparr> else d1)"
    by (rule ParseDSN_Inr)
  from c have same: "prefetchRows cfg = prefetchRows d1" "prefetchMemory cfg = prefetchMemory d1"
    "operationMode cfg = operationMode d1" "Location cfg = Location d1"
    by (simp_all split: if_splits)
  from rangeParams_frame [OF r] d0 same show ?thesis by simp
qed

theorem ParseDSN_defaults_witness:
  "''prefetch_rows'' \<notin> fst ` set (dsn_query (std_helpers []) ''u/p@h?x=1'')
   \<and> ''prefetch_memory'' \<notin> fst ` set (dsn_query (std_helpers []) ''u/p@h?x=1'')
   \<and> ''as'' \<notin> fst ` set (dsn_query (std_helpers []) ''u/p@h?x=1'')
   \<and> ''loc'' \<notin> fst ` set (dsn_query (std_helpers []) ''u/p@h?x=1'')
   \<and> (\<exists>cfg. ParseDSN (std_helpers []) ''u/p@h?x=1'' = Inr cfg
        \<and> prefetchRows cfg = 10 \<and> prefetchMemory cfg = 0
        \<and> operationMode cfg = OCI_DEFAULT \<and> Location cfg = Some Local)"
  using ParseDSN_defaults [OF run_plain]
  by (simp add: run_plain run_plain_query)

text \<open>
  Claim C9: for every successfully parsed connection string whose query has no
  \<open>questionph\<close> parameter, the question-mark-placeholder flag of the configuration is
  false.
\<close>

theorem ParseDSN_questionph_default:
  assumes "ParseDSN H s = Inr cfg" and "''questionph'' \<notin> fst ` set (dsn_query H s)"
  shows "enableQMPlaceholders cfg = False"
proof -
  from assms(1) obtain d0 d1 where
    r: "rangeParams H d0 (dsn_query H s) = Inr d1"
    and d0: "enableQMPlaceholders d0 = False"
    and c: "cfg = (if length (Username d1) + length (Password d1) + length (Connect d1) = 0
            then d1\<lparr>externalauthentication := True\<rparr> else d1)"
    by (rule ParseDSN_Inr)
  from c have "enableQMPlaceholders cfg = enableQMPlaceholders d1"
    by (simp split: if_splits)
  with rangeParams_frame [OF r] d0 assms(2) show ?thesis by simp
qed

theorem ParseDSN_questionph_default_witness:
  "''questionph'' \<notin> fst ` set (dsn_query (std_helpers []) ''u/p@h?x=1'')
   \<and> (\<exists>cfg. ParseDSN (std_helpers []) ''u/p@h?x=1'' = Inr cfg
        \<and> \<not> enableQMPlaceholders cfg)"
proof -
  have a: "''questionph'' \<notin> fst ` set (dsn_query (std_helpers []) ''u/p@h?x=1'')"
    by (simp add: run_plain_query)
  from ParseDSN_questionph_default [OF run_plain a] run_plain a show ?thesis
    by simp
qed

section \<open>placeholders\<close>

lemma digit_not_marker: "d < 10 \<Longrightarrow> CHR ''?'' \<noteq> char_of (48 + d :: nat)"
proof
  assume d: "d < 10" and "CHR ''?'' = char_of (48 + d)"
  then have "(of_char (char_of (48 + d)) :: nat) = of_char CHR ''?''" by simp
  with d show False by simp
qed

lemma Itoa_no_marker: "CHR ''?'' \<notin> set (Itoa n)"
proof (induction n rule: Itoa.induct)
  case (1 n)
  show ?case
  proof (cases "n < 10")
    case True
    then show ?thesis
      by (simp add: Itoa.simps [of n] digit_not_marker)
  next
    case False
    have "n mod 10 < 10" by simp
    with False 1 show ?thesis
      by (simp add: Itoa.simps [of n] digit_not_marker)
  qed
qed

lemma Replace_no_marker:
  "CHR ''?'' \<notin> set (fst (ReplaceAllStringFunc phre s
       (\<lambda>m n. (let n = n + 1 in ('':'' @ Itoa n, n))) n))"
  by (induction s arbitrary: n)
     (simp_all add: phre_def Itoa_no_marker Let_def split_beta)

lemma Replace_unmarked:
  "phre \<notin> set s \<Longrightarrow> ReplaceAllStringFunc phre s f st = (s, st)"
  by (induction s) auto

lemma marker_segments_not_Nil: "marker_segments s \<noteq> []"
  by (induction s) (simp_all split: list.splits)

lemma Replace_numbered:
  "fst (ReplaceAllStringFunc phre s (\<lambda>m n. (let n = n + 1 in ('':'' @ Itoa n, n))) n)
     = number_markers (Suc n) (marker_segments s)"
proof (induction s arbitrary: n)
  case Nil
  then show ?case by simp
next
  case (Cons c cs)
  obtain seg segs where sg: "marker_segments cs = seg # segs"
    using marker_segments_not_Nil [of cs] by (cases "marker_segments cs") auto
  show ?case
  proof (cases "c = CHR ''?''")
    case True
    with Cons.IH [of "Suc n"] sg show ?thesis
      by (simp add: phre_def Let_def split_beta)
  next
    case False
    with Cons.IH [of n] sg show ?thesis
      by (cases segs) (simp_all add: phre_def Let_def split_beta)
  qed
qed

text \<open>
  Claim C7: for every SQL string, \<open>placeholders\<close> replaces each occurrence of the
  marker, left to right, by the numbered markers \<open>:1\<close>, \<open>:2\<close>, ..., \<open>:n\<close>, the
  numbering starting at 1 on every call; it maps
  \<open>SELECT * FROM t WHERE a=? AND b=?\<close> to \<open>SELECT * FROM t WHERE a=:1 AND b=:2\<close>;
  its output contains no marker, so a second application changes nothing.
\<close>

theorem placeholders_numbering:
  "placeholders sql = number_markers 1 (marker_segments sql)
   \<and> placeholders ''SELECT * FROM t WHERE a=? AND b=?'' = ''SELECT * FROM t WHERE a=:1 AND b=:2''
   \<and> CHR ''?'' \<notin> set (placeholders sql)
   \<and> placeholders (placeholders sql) = placeholders sql"
proof (intro conjI)
  show "placeholders sql = number_markers 1 (marker_segments sql)"
    using Replace_numbered [of sql 0] by (simp add: placeholders_def)
  show "placeholders ''SELECT * FROM t WHERE a=? AND b=?'' = ''SELECT * FROM t WHERE a=:1 AND b=:2''"
    by code_simp
  show nm: "CHR ''?'' \<notin> set (placeholders sql)"
    using Replace_no_marker [of sql 0] by (simp add: placeholders_def)
  then have "phre \<notin> set (placeholders sql)"
    by (simp add: phre_def)
  then show "placeholders (placeholders sql) = placeholders sql"
    by (simp add: placeholders_def [of "placeholders sql"] Replace_unmarked)
qed

section \<open>The native calls and the trace\<close>

lemma acquired_append [simp]: "acquired (xs @ ys) = acquired xs @ acquired ys"
  by (induction xs rule: acquired.induct) simp_all

lemma released_append [simp]: "released (xs @ ys) = released xs @ released ys"
  by (induction xs rule: released.induct) simp_all

lemma leaked_balanced: "released evs = rev (acquired evs) \<Longrightarrow> leaked evs = []"
  by (simp add: leaked_def filter_empty_conv)

lemma trace_OCIHandleFree [simp]: "trace (OCIHandleFree h t w) = trace w @ [Released t h]"
  by (simp add: OCIHandleFree_def log_events_def)

lemma WrapOCIEnvCreate_trace:
  assumes "WrapOCIEnvCreate N mode extra w = ((rv, ptr), w1)"
  shows "rv = N (trace w) (EnvCreate mode extra)"
    and "rv = OCI_SUCCESS \<or> rv = OCI_SUCCESS_WITH_INFO \<Longrightarrow>
           trace w1 = trace w @ [Called (EnvCreate mode extra) rv, Acquired OCI_HTYPE_ENV ptr]"
    and "rv \<noteq> OCI_SUCCESS \<Longrightarrow> rv \<noteq> OCI_SUCCESS_WITH_INFO \<Longrightarrow>
           trace w1 = trace w @ [Called (EnvCreate mode extra) rv]"
  using assms
  by (auto simp: WrapOCIEnvCreate_def log_events_def Let_def split: if_splits)

lemma WrapOCIHandleAlloc_trace:
  assumes "WrapOCIHandleAlloc N parent t extra w = ((rv, ptr), w1)"
  shows "rv = N (trace w) (HandleAlloc parent t extra)"
    and "rv = OCI_SUCCESS \<Longrightarrow>
           trace w1 = trace w @ [Called (HandleAlloc parent t extra) rv, Acquired t ptr]"
    and "rv \<noteq> OCI_SUCCESS \<Longrightarrow> trace w1 = trace w @ [Called (HandleAlloc parent t extra) rv]"
  using assms
  by (auto simp: WrapOCIHandleAlloc_def log_events_def Let_def split: if_splits)

lemma WrapOCILogon_trace:
  assumes "WrapOCILogon N e h u ul p pl c cl w = ((rv, ptr), w1)"
  shows "rv = N (trace w) (Logon e h u ul p pl c cl)"
    and "rv = OCI_SUCCESS \<or> rv = OCI_SUCCESS_WITH_INFO \<Longrightarrow>
           trace w1 = trace w @ [Called (Logon e h u ul p pl c cl) rv, Acquired OCI_HTYPE_SVCCTX ptr]"
    and "rv \<noteq> OCI_SUCCESS \<Longrightarrow> rv \<noteq> OCI_SUCCESS_WITH_INFO \<Longrightarrow>
           trace w1 = trace w @ [Called (Logon e h u ul p pl c cl) rv]"
  using assms
  by (auto simp: WrapOCILogon_def log_events_def Let_def split: if_splits)

lemma WrapOCIServerAttach_trace:
  assumes "WrapOCIServerAttach N s e d l m w = (rv, w1)"
  shows "trace w1 = trace w @ [Called (ServerAttach s e d l m) rv]"
  using assms by (auto simp: WrapOCIServerAttach_def log_events_def Let_def)

lemma OCIAttrSet_trace:
  assumes "OCIAttrSet N h t v sz a e w = (rv, w1)"
  shows "trace w1 = trace w @ [Called (AttrSet h t v sz a e) rv]"
  using assms by (auto simp: OCIAttrSet_def log_events_def Let_def)

lemma WrapOCISessionBegin_trace:
  assumes "WrapOCISessionBegin N s e u c m w = (rv, w1)"
  shows "trace w1 = trace w @ [Called (SessionBegin s e u c m) rv]"
  using assms by (auto simp: WrapOCISessionBegin_def log_events_def Let_def)

lemma Open_Logon_Inl:
  assumes "Open_Logon N dsn c w = (Inl err, w')"
  shows "\<exists>evs. trace w' = trace w @ evs \<and> acquired evs = []
           \<and> released evs = [(OCI_HTYPE_ERROR, errHandle c), (OCI_HTYPE_ENV, env c)]"
  using assms unfolding Open_Logon_def Let_def
  by (auto split: prod.splits if_splits dest!: WrapOCILogon_trace(3))

lemma WrapOCIHandleAlloc_tr:
  "WrapOCIHandleAlloc N parent t extra w = ((rv, ptr), w1) \<Longrightarrow>
     trace w1 = trace w @ Called (HandleAlloc parent t extra) rv #
                  (if rv = OCI_SUCCESS then [Acquired t ptr] else [])"
  by (auto simp: WrapOCIHandleAlloc_def log_events_def Let_def split: if_splits)

lemma Open_SessionBegin_Inl:
  assumes "Open_SessionBegin N dsn c w = (Inl err, w')"
  shows "\<exists>evs. trace w' = trace w @ evs
           \<and> released evs = rev (acquired evs) @ [(OCI_HTYPE_ERROR, errHandle c), (OCI_HTYPE_ENV, env c)]"
  using assms unfolding Open_SessionBegin_def Let_def
  by (auto split: prod.splits if_splits option.splits
       dest!: WrapOCIHandleAlloc_tr WrapOCIServerAttach_trace OCIAttrSet_trace
              WrapOCISessionBegin_trace)

lemma WrapOCIEnvCreate_tr:
  "WrapOCIEnvCreate N mode extra w = ((rv, ptr), w1) \<Longrightarrow>
     trace w1 = trace w @ Called (EnvCreate mode extra) rv #
                  (if rv = OCI_SUCCESS \<or> rv = OCI_SUCCESS_WITH_INFO
                   then [Acquired OCI_HTYPE_ENV ptr] else [])"
  by (auto simp: WrapOCIEnvCreate_def log_events_def Let_def split: if_splits)

lemma Open_Inl_trace:
  assumes "Open N H useOCISessionBegin oci8Driver dsnString w = (Inl err, w')"
  shows "\<exists>evs. trace w' = trace w @ evs \<and> released evs = rev (acquired evs)"
proof (cases "ParseDSN H dsnString")
  case (Inl e)
  with assms have "trace w' = trace w @ []"
    by (simp add: Open_def)
  then show ?thesis by fastforce
next
  case (Inr dsn)
  show ?thesis
  proof (cases useOCISessionBegin)
    case True
    with assms Inr show ?thesis
      unfolding Open_def Let_def
      by (auto split: prod.splits if_splits sum.splits
            dest!: WrapOCIEnvCreate_tr WrapOCIHandleAlloc_tr Open_SessionBegin_Inl)
  next
    case False
    with assms Inr show ?thesis
      unfolding Open_def Let_def
      by (auto split: prod.splits if_splits sum.splits
            dest!: WrapOCIEnvCreate_tr WrapOCIHandleAlloc_tr Open_Logon_Inl)
  qed
qed

section \<open>Concrete runs of Open, Commit and Rollback\<close>

lemma run_open_set_session_fails:
  "Open (fake_native is_set_session OCI_ERROR) (std_helpers []) True \<lparr>Logger = None\<rparr>
      ''u/p@h?x=1'' new_world =
   (Inl (NativeDiagnostic 2 (- 1)),
    \<lparr>trace =
       [Called (EnvCreate 1 0) 0, Acquired OCI_HTYPE_ENV 1,
        Called (HandleAlloc 1 OCI_HTYPE_ERROR 0) 0, Acquired OCI_HTYPE_ERROR 2,
        Called (HandleAlloc 1 OCI_HTYPE_SERVER 0) 0, Acquired OCI_HTYPE_SERVER 3,
        Called (ServerAttach 3 2 (Some ''h'') 1 0) 0,
        Called (HandleAlloc 1 OCI_HTYPE_SVCCTX 0) 0, Acquired OCI_HTYPE_SVCCTX 4,
        Called (AttrSet 4 OCI_HTYPE_SVCCTX (HandlePtr 3) 0 OCI_ATTR_SERVER 2) 0,
        Called (HandleAlloc 1 OCI_HTYPE_SESSION 0) 0, Acquired OCI_HTYPE_SESSION 5,
        Called (AttrSet 5 OCI_HTYPE_SESSION (Text ''u'') 1 OCI_ATTR_USERNAME 2) 0,
        Called (AttrSet 5 OCI_HTYPE_SESSION (Text ''p'') 1 OCI_ATTR_PASSWORD 2) 0,
        Called (SessionBegin 4 2 5 OCI_CRED_RDBMS 0) 0,
        Called (AttrSet 4 OCI_HTYPE_SVCCTX (HandlePtr 5) 0 OCI_ATTR_SESSION 2) (- 1),
        Released OCI_HTYPE_SESSION 5, Released OCI_HTYPE_SVCCTX 4,
        Released OCI_HTYPE_SERVER 3, Released OCI_HTYPE_ERROR 2,
        Released OCI_HTYPE_ENV 1],
     fresh = 6\<rparr>)"
  by (simp add: Open_def Open_SessionBegin_def run_plain native_defs oci_consts Let_def)

section \<open>Claims about Open\<close>

text \<open>
  Claim C1: on every failure exit of \<open>Open\<close>, at whatever step of the ladder and in
  either branch, exactly the handles acquired before that step are released, in the
  reverse order of their acquisition, before the error is returned, and no acquired
  handle is leaked. \<open>evs\<close> is what this call of \<open>Open\<close> added to the trace.
\<close>

theorem Open_failure_releases:
  assumes "Open N H useOCISessionBegin oci8Driver dsnString w = (Inl err, w')"
  shows "\<exists>evs. trace w' = trace w @ evs \<and> released evs = rev (acquired evs) \<and> leaked evs = []"
proof -
  from Open_Inl_trace [OF assms] obtain evs where
    "trace w' = trace w @ evs" "released evs = rev (acquired evs)" by blast
  moreover from this(2) have "leaked evs = []" by (rule leaked_balanced)
  ultimately show ?thesis by blast
qed

theorem Open_failure_releases_witness:
  "\<exists>w'. Open (fake_native is_set_session OCI_ERROR) (std_helpers []) True \<lparr>Logger = None\<rparr>
            ''u/p@h?x=1'' new_world = (Inl (NativeDiagnostic 2 (- 1)), w')
     \<and> acquired (trace w') =
          [(OCI_HTYPE_ENV, 1), (OCI_HTYPE_ERROR, 2), (OCI_HTYPE_SERVER, 3),
           (OCI_HTYPE_SVCCTX, 4), (OCI_HTYPE_SESSION, 5)]
     \<and> released (trace w') =
          [(OCI_HTYPE_SESSION, 5), (OCI_HTYPE_SVCCTX, 4), (OCI_HTYPE_SERVER, 3),
           (OCI_HTYPE_ERROR, 2), (OCI_HTYPE_ENV, 1)]
     \<and> leaked (trace w') = []"
  using Open_failure_releases [OF run_open_set_session_fails]
  by (simp add: run_open_set_session_fails leaked_def)

lemma Open_SessionBegin_result:
  assumes "Open_SessionBegin N dsn c w = (r, w')"
  shows "(\<exists>evs. trace w' = trace w @ evs) \<and> r \<noteq> Inl (Error cant_OCIEnvCreate)
       \<and> (\<forall>c'. r = Inr c' \<longrightarrow> env c' = env c \<and> errHandle c' = errHandle c)"
  using assms unfolding Open_SessionBegin_def Let_def
  by (auto simp: cant_OCIEnvCreate_def getError_def split: prod.splits if_splits option.splits
       dest!: WrapOCIHandleAlloc_tr WrapOCIServerAttach_trace OCIAttrSet_trace
              WrapOCISessionBegin_trace)

lemma WrapOCILogon_tr:
  "WrapOCILogon N e h u ul p pl c cl w = ((rv, ptr), w1) \<Longrightarrow>
     trace w1 = trace w @ Called (Logon e h u ul p pl c cl) rv #
                  (if rv = OCI_SUCCESS \<or> rv = OCI_SUCCESS_WITH_INFO
                   then [Acquired OCI_HTYPE_SVCCTX ptr] else [])"
  by (auto simp: WrapOCILogon_def log_events_def Let_def split: if_splits)

lemma Open_Logon_result:
  assumes "Open_Logon N dsn c w = (r, w')"
  shows "(\<exists>evs. trace w' = trace w @ evs) \<and> r \<noteq> Inl (Error cant_OCIEnvCreate)
       \<and> (\<forall>c'. r = Inr c' \<longrightarrow> env c' = env c \<and> errHandle c' = errHandle c)"
  using assms unfolding Open_Logon_def Let_def
  by (auto simp: cant_OCIEnvCreate_def getError_def split: prod.splits if_splits
       dest!: WrapOCILogon_tr)

text \<open>
  When \<open>Open\<close> succeeds it releases nothing, and the connection it returns holds
  exactly the handles it acquired, in the order of the ladder.
\<close>

lemma Open_SessionBegin_Inr:
  assumes "Open_SessionBegin N dsn c w = (Inr c', w')"
  shows "\<exists>evs. trace w' = trace w @ evs \<and> released evs = []
           \<and> acquired evs = [(OCI_HTYPE_SERVER, srv c'), (OCI_HTYPE_SVCCTX, svc c'),
                              (OCI_HTYPE_SESSION, usrSession c')]
           \<and> env c' = env c \<and> errHandle c' = errHandle c"
  using assms unfolding Open_SessionBegin_def Let_def
  by (auto split: prod.splits if_splits option.splits
       dest!: WrapOCIHandleAlloc_tr WrapOCIServerAttach_trace OCIAttrSet_trace
              WrapOCISessionBegin_trace)

lemma Open_Logon_Inr:
  assumes "Open_Logon N dsn c w = (Inr c', w')"
  shows "\<exists>evs. trace w' = trace w @ evs \<and> released evs = []
           \<and> acquired evs = [(OCI_HTYPE_SVCCTX, svc c')]
           \<and> env c' = env c \<and> errHandle c' = errHandle c"
  using assms unfolding Open_Logon_def Let_def
  by (auto split: prod.splits if_splits dest!: WrapOCILogon_tr)

lemma Open_success_keeps:
  assumes "Open N H useOCISessionBegin oci8Driver dsnString w = (Inr c, w')"
  shows "\<exists>evs. trace w' = trace w @ evs \<and> released evs = []
           \<and> acquired evs =
                (if useOCISessionBegin
                 then [(OCI_HTYPE_ENV, env c), (OCI_HTYPE_ERROR, errHandle c),
                       (OCI_HTYPE_SERVER, srv c), (OCI_HTYPE_SVCCTX, svc c),
                       (OCI_HTYPE_SESSION, usrSession c)]
                 else [(OCI_HTYPE_ENV, env c), (OCI_HTYPE_ERROR, errHandle c),
                       (OCI_HTYPE_SVCCTX, svc c)])"
proof (cases "ParseDSN H dsnString")
  case (Inl e)
  with assms show ?thesis by (simp add: Open_def)
next
  case (Inr dsn)
  show ?thesis
  proof (cases useOCISessionBegin)
    case True
    with assms Inr show ?thesis
      unfolding Open_def Let_def
      by (auto split: prod.splits if_splits sum.splits
            dest!: WrapOCIEnvCreate_tr WrapOCIHandleAlloc_tr Open_SessionBegin_Inr)
  next
    case False
    with assms Inr show ?thesis
      unfolding Open_def Let_def
      by (auto split: prod.splits if_splits sum.splits
            dest!: WrapOCIEnvCreate_tr WrapOCIHandleAlloc_tr Open_Logon_Inr)
  qed
qed

text \<open>
  Claim C5: in the direct-logon branch, the combined logon call counts as success
  exactly when its status is \<open>OCI_SUCCESS\<close> or \<open>OCI_SUCCESS_WITH_INFO\<close>, and then the
  returned pointer becomes the service-context handle of the connection; for any other
  status \<open>Open\<close> releases the error handle, then the environment handle, and returns
  the native diagnostic. The first four assumptions name the steps before the logon:
  the string parses, the environment and the error handle are acquired.
\<close>

theorem Open_direct_logon:
  assumes p: "ParseDSN H dsnString = Inr dsn"
    and e: "WrapOCIEnvCreate N (OCI_DEFAULT OR OCI_THREADED) 0 w = ((rv1, envp), w1)"
    and e_ok: "rv1 = OCI_SUCCESS \<or> rv1 = OCI_SUCCESS_WITH_INFO"
    and a: "WrapOCIHandleAlloc N envp OCI_HTYPE_ERROR 0 w1 = ((OCI_SUCCESS, errp), w2)"
    and l: "WrapOCILogon N envp errp
              (Username dsn) (of_nat (length (Username dsn)))
              (Password dsn) (of_nat (length (Password dsn)))
              (Connect dsn) (of_nat (length (Connect dsn))) w2 = ((rv, ptr), w3)"
  shows "(rv = OCI_SUCCESS \<or> rv = OCI_SUCCESS_WITH_INFO \<longrightarrow>
            (\<exists>c. Open N H False oci8Driver dsnString w = (Inr c, w3)
                 \<and> svc c = ptr \<and> env c = envp \<and> errHandle c = errp))
       \<and> (rv \<noteq> OCI_SUCCESS \<and> rv \<noteq> OCI_SUCCESS_WITH_INFO \<longrightarrow>
            Open N H False oci8Driver dsnString w
              = (Inl (NativeDiagnostic errp rv),
                 OCIHandleFree envp OCI_HTYPE_ENV (OCIHandleFree errp OCI_HTYPE_ERROR w3)))"
proof (intro conjI impI)
  assume "rv = OCI_SUCCESS \<or> rv = OCI_SUCCESS_WITH_INFO"
  with p e e_ok a l show "\<exists>c. Open N H False oci8Driver dsnString w = (Inr c, w3)
                 \<and> svc c = ptr \<and> env c = envp \<and> errHandle c = errp"
    by (auto simp: Open_def Open_Logon_def Let_def)
next
  assume "rv \<noteq> OCI_SUCCESS \<and> rv \<noteq> OCI_SUCCESS_WITH_INFO"
  with p e e_ok a l show "Open N H False oci8Driver dsnString w
              = (Inl (NativeDiagnostic errp rv),
                 OCIHandleFree envp OCI_HTYPE_ENV (OCIHandleFree errp OCI_HTYPE_ERROR w3))"
    by (auto simp: Open_def Open_Logon_def Let_def getError_def)
qed

theorem Open_direct_logon_witness:
  "(\<exists>c w'. Open (fake_native is_Logon OCI_SUCCESS_WITH_INFO) (std_helpers []) False
              \<lparr>Logger = None\<rparr> ''u/p@h?x=1'' new_world = (Inr c, w')
        \<and> svc c = 3 \<and> env c = 1 \<and> errHandle c = 2)
   \<and> (\<exists>w'. Open (fake_native is_Logon OCI_ERROR) (std_helpers []) False
              \<lparr>Logger = None\<rparr> ''u/p@h?x=1'' new_world
              = (Inl (NativeDiagnostic 2 OCI_ERROR), w')
        \<and> released (trace w') = [(OCI_HTYPE_ERROR, 2), (OCI_HTYPE_ENV, 1)])"
proof -
  let ?w1 = "\<lparr>trace = [Called (EnvCreate 1 0) 0, Acquired OCI_HTYPE_ENV 1], fresh = 2\<rparr>"
  let ?w2 = "\<lparr>trace = [Called (EnvCreate 1 0) 0, Acquired OCI_HTYPE_ENV 1,
                Called (HandleAlloc 1 OCI_HTYPE_ERROR 0) 0, Acquired OCI_HTYPE_ERROR 2],
              fresh = 3\<rparr>"
  have e: "WrapOCIEnvCreate (fake_native is_Logon rv) (OCI_DEFAULT OR OCI_THREADED) 0 new_world
             = ((OCI_SUCCESS, 1), ?w1)" for rv
    by (simp add: native_defs oci_consts Let_def)
  have a: "WrapOCIHandleAlloc (fake_native is_Logon rv) 1 OCI_HTYPE_ERROR 0 ?w1
             = ((OCI_SUCCESS, 2), ?w2)" for rv
    by (simp add: native_defs oci_consts Let_def)
  have l1: "WrapOCILogon (fake_native is_Logon OCI_SUCCESS_WITH_INFO) 1 2
              ''u'' 1 ''p'' 1 ''h'' 1 ?w2
            = ((OCI_SUCCESS_WITH_INFO, 3),
               \<lparr>trace = trace ?w2 @ [Called (Logon 1 2 ''u'' 1 ''p'' 1 ''h'' 1) 1,
                                     Acquired OCI_HTYPE_SVCCTX 3], fresh = 4\<rparr>)"
    by (simp add: native_defs oci_consts Let_def)
  have l2: "WrapOCILogon (fake_native is_Logon OCI_ERROR) 1 2 ''u'' 1 ''p'' 1 ''h'' 1 ?w2
            = ((OCI_ERROR, 0),
               \<lparr>trace = trace ?w2 @ [Called (Logon 1 2 ''u'' 1 ''p'' 1 ''h'' 1) (- 1)],
                fresh = 3\<rparr>)"
    by (simp add: native_defs oci_consts Let_def)
  from Open_direct_logon [OF run_plain e _ a, of OCI_SUCCESS_WITH_INFO OCI_SUCCESS_WITH_INFO 3 _
         "\<lparr>Logger = None\<rparr>"] l1
  have ok: "\<exists>c w'. Open (fake_native is_Logon OCI_SUCCESS_WITH_INFO) (std_helpers []) False
              \<lparr>Logger = None\<rparr> ''u/p@h?x=1'' new_world = (Inr c, w')
        \<and> svc c = 3 \<and> env c = 1 \<and> errHandle c = 2"
    by auto
  from Open_direct_logon [OF run_plain e _ a, of OCI_ERROR OCI_ERROR 0 _ "\<lparr>Logger = None\<rparr>"] l2
  have bad: "\<exists>w'. Open (fake_native is_Logon OCI_ERROR) (std_helpers []) False
              \<lparr>Logger = None\<rparr> ''u/p@h?x=1'' new_world
              = (Inl (NativeDiagnostic 2 OCI_ERROR), w')
        \<and> released (trace w') = [(OCI_HTYPE_ERROR, 2), (OCI_HTYPE_ENV, 1)]"
    by (simp add: oci_consts)
  from ok bad show ?thesis by (rule conjI)
qed

text \<open>
  Claim C10: at the first step of the ladder, \<open>Open\<close> takes both \<open>OCI_SUCCESS\<close> and
  \<open>OCI_SUCCESS_WITH_INFO\<close> from the creation of the environment as success and goes on
  with the returned environment handle (the next call allocates the error handle under
  it, and a connection that is returned holds it); any other status, and only that,
  gives the generic error that the environment cannot be created.
\<close>

theorem Open_env_create:
  assumes p: "ParseDSN H dsnString = Inr dsn"
    and e: "WrapOCIEnvCreate N (OCI_DEFAULT OR OCI_THREADED) 0 w = ((rv, envp), w1)"
  shows "(rv \<noteq> OCI_SUCCESS \<and> rv \<noteq> OCI_SUCCESS_WITH_INFO \<longrightarrow>
            Open N H useOCISessionBegin oci8Driver dsnString w
              = (Inl (Error cant_OCIEnvCreate), w1))
       \<and> (rv = OCI_SUCCESS \<or> rv = OCI_SUCCESS_WITH_INFO \<longrightarrow>
            fst (Open N H useOCISessionBegin oci8Driver dsnString w)
              \<noteq> Inl (Error cant_OCIEnvCreate)
          \<and> (\<exists>evs. trace (snd (Open N H useOCISessionBegin oci8Driver dsnString w))
                 = trace w1 @ Called (HandleAlloc envp OCI_HTYPE_ERROR 0)
                                (N (trace w1) (HandleAlloc envp OCI_HTYPE_ERROR 0)) # evs)
          \<and> (\<forall>c w'. Open N H useOCISessionBegin oci8Driver dsnString w = (Inr c, w')
                 \<longrightarrow> env c = envp))"
proof (intro conjI impI)
  assume "rv \<noteq> OCI_SUCCESS \<and> rv \<noteq> OCI_SUCCESS_WITH_INFO"
  with p e show "Open N H useOCISessionBegin oci8Driver dsnString w
              = (Inl (Error cant_OCIEnvCreate), w1)"
    by (simp add: Open_def Let_def)
next
  assume ok: "rv = OCI_SUCCESS \<or> rv = OCI_SUCCESS_WITH_INFO"
  obtain rv2 errp w2 where a: "WrapOCIHandleAlloc N envp OCI_HTYPE_ERROR 0 w1 = ((rv2, errp), w2)"
    by (metis prod.exhaust)
  note a_tr = WrapOCIHandleAlloc_tr [OF a] WrapOCIHandleAlloc_trace(1) [OF a]
  define c0 where "c0 = (if logger (OCI8Conn_zero\<lparr>conn_operationMode := operationMode dsn,
                                   logger := Logger oci8Driver\<rparr>) = None
      then (OCI8Conn_zero\<lparr>conn_operationMode := operationMode dsn,
                                   logger := Logger oci8Driver\<rparr>)\<lparr>logger := Some DiscardLogger\<rparr>
      else OCI8Conn_zero\<lparr>conn_operationMode := operationMode dsn,
                                   logger := Logger oci8Driver\<rparr>)"
  obtain r w3 where b: "(if useOCISessionBegin
        then Open_SessionBegin N dsn (c0\<lparr>env := envp, errHandle := errp\<rparr>) w2
        else Open_Logon N dsn (c0\<lparr>env := envp, errHandle := errp\<rparr>) w2) = (r, w3)"
    by (metis prod.exhaust)
  then have br: "(\<exists>evs. trace w3 = trace w2 @ evs) \<and> r \<noteq> Inl (Error cant_OCIEnvCreate)
       \<and> (\<forall>c'. r = Inr c' \<longrightarrow> env c' = envp)"
    using Open_SessionBegin_result [of N dsn "c0\<lparr>env := envp, errHandle := errp\<rparr>" w2 r w3]
      Open_Logon_result [of N dsn "c0\<lparr>env := envp, errHandle := errp\<rparr>" w2 r w3]
    by (auto split: if_splits)
  have unfold: "Open N H useOCISessionBegin oci8Driver dsnString w =
     (if rv2 \<noteq> OCI_SUCCESS
      then (Inl (Error ''cant allocate error handle''), OCIHandleFree envp OCI_HTYPE_ENV w2)
      else (case r of Inl err \<Rightarrow> (Inl err, w3)
            | Inr c \<Rightarrow> (Inr (c\<lparr>conn_location := Location dsn,
                     conn_transactionMode := transactionMode dsn,
                     conn_prefetchRows := prefetchRows dsn,
                     conn_prefetchMemory := prefetchMemory dsn,
                     conn_enableQMPlaceholders := enableQMPlaceholders dsn\<rparr>), w3)))"
    using p e ok a b
    by (auto simp: Open_def Let_def c0_def split: sum.splits)
  show "fst (Open N H useOCISessionBegin oci8Driver dsnString w)
              \<noteq> Inl (Error cant_OCIEnvCreate)"
    using br by (auto simp: unfold cant_OCIEnvCreate_def split: sum.splits)
  show "\<exists>evs. trace (snd (Open N H useOCISessionBegin oci8Driver dsnString w))
                 = trace w1 @ Called (HandleAlloc envp OCI_HTYPE_ERROR 0)
                                (N (trace w1) (HandleAlloc envp OCI_HTYPE_ERROR 0)) # evs"
    using br a_tr by (auto simp: unfold split: sum.splits)
  show "\<forall>c w'. Open N H useOCISessionBegin oci8Driver dsnString w = (Inr c, w')
                 \<longrightarrow> env c = envp"
    using br by (auto simp: unfold split: sum.splits if_splits)
qed

theorem Open_env_create_witness:
  "Open (fake_native is_EnvCreate OCI_ERROR) (std_helpers []) False \<lparr>Logger = None\<rparr>
      ''u/p@h?x=1'' new_world
     = (Inl (Error cant_OCIEnvCreate), \<lparr>trace = [Called (EnvCreate 1 0) (- 1)], fresh = 1\<rparr>)
   \<and> (\<exists>c w'. Open (fake_native is_EnvCreate OCI_SUCCESS_WITH_INFO) (std_helpers []) False
          \<lparr>Logger = None\<rparr> ''u/p@h?x=1'' new_world = (Inr c, w') \<and> env c = 1)"
proof -
  have e1: "WrapOCIEnvCreate (fake_native is_EnvCreate OCI_ERROR) (OCI_DEFAULT OR OCI_THREADED) 0
              new_world
            = ((OCI_ERROR, 0), \<lparr>trace = [Called (EnvCreate 1 0) (- 1)], fresh = 1\<rparr>)"
    by (simp add: native_defs oci_consts Let_def)
  have e2: "WrapOCIEnvCreate (fake_native is_EnvCreate OCI_SUCCESS_WITH_INFO)
              (OCI_DEFAULT OR OCI_THREADED) 0 new_world
            = ((OCI_SUCCESS_WITH_INFO, 1),
               \<lparr>trace = [Called (EnvCreate 1 0) 1, Acquired OCI_HTYPE_ENV 1], fresh = 2\<rparr>)"
    by (simp add: native_defs oci_consts Let_def)
  have run: "\<exists>c w'. Open (fake_native is_EnvCreate OCI_SUCCESS_WITH_INFO) (std_helpers []) False
          \<lparr>Logger = None\<rparr> ''u/p@h?x=1'' new_world = (Inr c, w')"
    by (simp add: Open_def Open_Logon_def run_plain native_defs oci_consts Let_def)
  from Open_env_create [OF run_plain e1, of False "\<lparr>Logger = None\<rparr>"]
  have a: "Open (fake_native is_EnvCreate OCI_ERROR) (std_helpers []) False \<lparr>Logger = None\<rparr>
      ''u/p@h?x=1'' new_world
     = (Inl (Error cant_OCIEnvCreate), \<lparr>trace = [Called (EnvCreate 1 0) (- 1)], fresh = 1\<rparr>)"
    by (simp add: oci_consts)
  from Open_env_create [OF run_plain e2, of False "\<lparr>Logger = None\<rparr>"]
  have "\<forall>c w'. Open (fake_native is_EnvCreate OCI_SUCCESS_WITH_INFO) (std_helpers []) False
          \<lparr>Logger = None\<rparr> ''u/p@h?x=1'' new_world = (Inr c, w') \<longrightarrow> env c = 1"
    by (simp add: oci_consts)
  with run have b: "\<exists>c w'. Open (fake_native is_EnvCreate OCI_SUCCESS_WITH_INFO) (std_helpers [])
          False \<lparr>Logger = None\<rparr> ''u/p@h?x=1'' new_world = (Inr c, w') \<and> env c = 1"
    by blast
  from a b show ?thesis by (rule conjI)
qed

section \<open>Claims about Commit and Rollback\<close>

text \<open>
  Claim C4: \<open>Commit\<close> and \<open>Rollback\<close> each set the in-transaction flag of the owning
  connection to false before the native call is issued, so the flag is false when the
  operation returns, in every case; when the native call fails, the native diagnostic
  is returned and the flag is false all the same. In the model the flag is written
  first and the native call cannot touch it; \<open>e\<close> and \<open>e2\<close> are the returned errors.
\<close>

theorem Commit_Rollback_clear_inTransaction:
  assumes c: "Commit N tx w = (e, tx', w')"
    and r: "Rollback N tx w = (e2, tx2, w2)"
  shows "inTransaction (conn tx') = False
       \<and> e = (if N (trace w) (TransCommit (svc (conn tx)) (errHandle (conn tx)) 0) = OCI_SUCCESS
              then None
              else Some (NativeDiagnostic (errHandle (conn tx))
                           (N (trace w) (TransCommit (svc (conn tx)) (errHandle (conn tx)) 0))))
       \<and> inTransaction (conn tx2) = False
       \<and> e2 = (if N (trace w) (TransRollback (svc (conn tx)) (errHandle (conn tx)) 0) = OCI_SUCCESS
              then None
              else Some (NativeDiagnostic (errHandle (conn tx))
                           (N (trace w) (TransRollback (svc (conn tx)) (errHandle (conn tx)) 0))))"
proof (intro conjI)
  from c show "inTransaction (conn tx') = False"
    by (auto simp: Commit_def OCITransCommit_def Let_def split: if_splits)
  from c show "e = (if N (trace w) (TransCommit (svc (conn tx)) (errHandle (conn tx)) 0) = OCI_SUCCESS
              then None
              else Some (NativeDiagnostic (errHandle (conn tx))
                           (N (trace w) (TransCommit (svc (conn tx)) (errHandle (conn tx)) 0))))"
    by (auto simp: Commit_def OCITransCommit_def Let_def getError_def split: if_splits)
  from r show "inTransaction (conn tx2) = False"
    by (auto simp: Rollback_def OCITransRollback_def Let_def split: if_splits)
  from r show "e2 = (if N (trace w) (TransRollback (svc (conn tx)) (errHandle (conn tx)) 0) = OCI_SUCCESS
              then None
              else Some (NativeDiagnostic (errHandle (conn tx))
                           (N (trace w) (TransRollback (svc (conn tx)) (errHandle (conn tx)) 0))))"
    by (auto simp: Rollback_def OCITransRollback_def Let_def getError_def split: if_splits)
qed

theorem Commit_Rollback_clear_inTransaction_witness:
  "(\<exists>tx' w'. Commit (fake_native is_trans OCI_ERROR)
        \<lparr>conn = OCI8Conn_zero\<lparr>svc := 3, errHandle := 2, inTransaction := True\<rparr>\<rparr> new_world
        = (Some (NativeDiagnostic 2 OCI_ERROR), tx', w') \<and> \<not> inTransaction (conn tx'))
   \<and> (\<exists>tx2 w2. Rollback (fake_native is_trans OCI_ERROR)
        \<lparr>conn = OCI8Conn_zero\<lparr>svc := 3, errHandle := 2, inTransaction := True\<rparr>\<rparr> new_world
        = (Some (NativeDiagnostic 2 OCI_ERROR), tx2, w2) \<and> \<not> inTransaction (conn tx2))"
proof -
  obtain e tx' w' where c: "Commit (fake_native is_trans OCI_ERROR)
        \<lparr>conn = OCI8Conn_zero\<lparr>svc := 3, errHandle := 2, inTransaction := True\<rparr>\<rparr> new_world
        = (e, tx', w')"
    by (metis prod.exhaust)
  obtain e2 tx2 w2 where r: "Rollback (fake_native is_trans OCI_ERROR)
        \<lparr>conn = OCI8Conn_zero\<lparr>svc := 3, errHandle := 2, inTransaction := True\<rparr>\<rparr> new_world
        = (e2, tx2, w2)"
    by (metis prod.exhaust)
  from Commit_Rollback_clear_inTransaction [OF c r] c r show ?thesis
    by (simp add: fake_native_def oci_consts OCI8Conn_zero_def)
qed

end
